theory Spec2Isabelle
  imports Main "HOL-Library.Word"
begin

section \<open>Surface-memory 3D arrays: the data model\<close>

text \<open>
  The header \<^verbatim>\<open>cudaSurface3D.h\<close> defines the base class \<^verbatim>\<open>CudaSurface3DBase\<close> and
  its two leaves \<^verbatim>\<open>CudaSurface2DArray\<close> and \<^verbatim>\<open>CudaSurface3D\<close>. Machine types are
  modelled with their width: \<^verbatim>\<open>size_t\<close> is a 64-bit word, \<^verbatim>\<open>int\<close> and
  \<^verbatim>\<open>unsigned int\<close> are 32-bit words (an \<^verbatim>\<open>int\<close> is read with \<open>sint\<close>), a stream
  is a pointer-sized word. Objects live in a store indexed by their address, device
  allocations in a table indexed by their handle, so that aliasing is explicit.
\<close>

type_synonym size_t = "64 word"
type_synonym cint = "32 word"
type_synonym cuint = "32 word"
type_synonym cudaStream_t = "64 word"
type_synonym handle = nat
type_synonym addr = nat

record dim3 =
  dim_x :: cuint
  dim_y :: cuint
  dim_z :: cuint

datatype cudaSurfaceBoundaryMode =
  cudaBoundaryModeZero | cudaBoundaryModeClamp | cudaBoundaryModeTrap

text \<open>
  Everything that is not a normal return: a call that the compiler rejects, the error
  codes of the runtime, a trapped kernel, and the undefined behaviours of the source
  (an object or a surface that does not exist, a host buffer that is too short).
\<close>

datatype error =
  NoMatchingConstructor
  | cudaErrorMemoryAllocation
  | cudaErrorInvalidValue
  | BoundaryTrap
  | InvalidSurface
  | InvalidObject
  | HostBufferOverrun

text \<open>The two leaf classes and their traits (\<^verbatim>\<open>CudaArrayTraits<...>::IS_LAYERED\<close>).\<close>

datatype leaf = CudaSurface2DArray | CudaSurface3D

fun IS_LAYERED :: "leaf \<Rightarrow> bool" where
  "IS_LAYERED CudaSurface2DArray = True"
| "IS_LAYERED CudaSurface3D = False"

subsection \<open>The device\<close>

text \<open>
  One allocation of surface memory: its extents in elements, whether it is layered, the
  size of one element in bytes (the channel descriptor of \<^verbatim>\<open>T\<close>), its elements in
  linear order (x fastest, then y, then z or the layer), and the number of surface
  handles that reference it.
\<close>

record 'v surf_data =
  s_width :: nat
  s_height :: nat
  s_depth :: nat
  s_layered :: bool
  s_esize :: nat
  s_mem :: "nat \<Rightarrow> 'v"
  s_refs :: nat

record 'v device =
  arrays :: "handle \<rightharpoonup> 'v surf_data"
  free_mem :: size_t
  next_handle :: handle
  garbage :: "nat \<Rightarrow> 'v"

definition s_count :: "'v surf_data \<Rightarrow> nat" where
  "s_count S = s_width S * s_height S * s_depth S"

subsection \<open>The shared surface handle\<close>

text \<open>
  Modelled from the spec: the class \<^verbatim>\<open>CudaSharedSurfaceObject\<close> is declared in a header
  that is not part of the sources at hand. The spec describes it as a reference-counted
  wrapper around a native surface object and its backing device array, shared by all
  shallow copies and released when the last reference is dropped; its constructor
  allocates a surface of the given extents and fails with a runtime error if the
  device allocation fails. The device refuses a request larger than its free memory;
  the memory of a new allocation holds whatever the device held there.
\<close>

definition CudaSharedSurfaceObject_ctor ::
  "size_t \<Rightarrow> size_t \<Rightarrow> size_t \<Rightarrow> size_t \<Rightarrow> bool \<Rightarrow> 'v device \<Rightarrow> error + (handle \<times> 'v device)"
where
  "CudaSharedSurfaceObject_ctor sizeof_T width height depth is_layered dev =
     (let bytes = unat sizeof_T * (unat width * unat height * unat depth) in
      if unat (free_mem dev) < bytes then Inl cudaErrorMemoryAllocation
      else Inr (next_handle dev,
        dev\<lparr>arrays := (arrays dev)(next_handle dev \<mapsto>
               \<lparr>s_width = unat width, s_height = unat height, s_depth = unat depth,
                s_layered = is_layered, s_esize = unat sizeof_T,
                s_mem = garbage dev, s_refs = 1\<rparr>),
            free_mem := free_mem dev - of_nat bytes,
            next_handle := Suc (next_handle dev)\<rparr>))"

text \<open>Modelled from the spec: copying a handle adds a reference to its allocation.\<close>

definition acquire :: "handle \<Rightarrow> 'v device \<Rightarrow> 'v device" where
  "acquire h dev =
     (case arrays dev h of
        None \<Rightarrow> dev
      | Some S \<Rightarrow> dev\<lparr>arrays := (arrays dev)(h \<mapsto> S\<lparr>s_refs := Suc (s_refs S)\<rparr>)\<rparr>)"

text \<open>
  Modelled from the spec: dropping a handle removes a reference; the allocation is
  released exactly when the count reaches zero.
\<close>

definition release :: "handle \<Rightarrow> 'v device \<Rightarrow> 'v device" where
  "release h dev =
     (case arrays dev h of
        None \<Rightarrow> dev
      | Some S \<Rightarrow>
          if s_refs S \<le> 1
          then dev\<lparr>arrays := (arrays dev)(h := None),
                   free_mem := free_mem dev + of_nat (s_esize S * s_count S)\<rparr>
          else dev\<lparr>arrays := (arrays dev)(h \<mapsto> S\<lparr>s_refs := s_refs S - 1\<rparr>)\<rparr>)"

text \<open>
  Modelled from the spec: assignment of one handle to another (\<^verbatim>\<open>surface = other.surface\<close>)
  takes the new reference and then drops the old one.
\<close>

definition handle_assign :: "handle \<Rightarrow> handle \<Rightarrow> 'v device \<Rightarrow> 'v device" where
  "handle_assign old new dev = release old (acquire new dev)"

subsection \<open>Array instances\<close>

text \<open>
  An instance of \<^verbatim>\<open>CudaSurface3DBase\<close>. The fields \<^verbatim>\<open>width_\<close>, \<^verbatim>\<open>height_\<close>,
  \<^verbatim>\<open>depth_\<close>, \<^verbatim>\<open>block_dim_\<close>, \<^verbatim>\<open>grid_dim_\<close> and \<^verbatim>\<open>stream_\<close> are those of the base
  class \<^verbatim>\<open>CudaArray3DBase\<close>; \<^verbatim>\<open>surface\<close> and \<^verbatim>\<open>boundary_mode_\<close> are declared here.
\<close>

record array_obj =
  width_m :: size_t
  height_m :: size_t
  depth_m :: size_t
  block_dim_m :: dim3
  grid_dim_m :: dim3
  stream_m :: cudaStream_t
  surface :: handle
  boundary_mode_m :: cudaSurfaceBoundaryMode

record 'v world =
  objs :: "addr \<rightharpoonup> array_obj"
  dev :: "'v device"

text \<open>The rule that derives the grid from the extents and the block.\<close>

type_synonym grid_rule = "size_t \<Rightarrow> size_t \<Rightarrow> size_t \<Rightarrow> dim3 \<Rightarrow> dim3"

text \<open>
  Modelled from the spec: the base class \<^verbatim>\<open>CudaArray3DBase\<close> is declared in a header
  that is not part of the sources at hand. Its fields are plain values, set by its
  constructor and copied by value on every instance copy. How it derives the grid from
  the extents and the block is not visible, so that computation is a parameter.
\<close>

definition Base_ctor ::
  "grid_rule \<Rightarrow> size_t \<Rightarrow> size_t \<Rightarrow> size_t \<Rightarrow> dim3 \<Rightarrow> cudaStream_t \<Rightarrow> array_obj \<Rightarrow> array_obj"
where
  "Base_ctor grid width height depth block_dim stream this =
     this\<lparr>width_m := width, height_m := height, depth_m := depth,
          block_dim_m := block_dim, grid_dim_m := grid width height depth block_dim,
          stream_m := stream\<rparr>"

text \<open>
  Modelled from the spec: the copy constructor and the assignment operator of
  \<^verbatim>\<open>CudaArray3DBase\<close> copy its fields from \<open>other\<close>, by value.
\<close>

definition Base_assign :: "array_obj \<Rightarrow> array_obj \<Rightarrow> array_obj" where
  "Base_assign other this =
     this\<lparr>width_m := width_m other, height_m := height_m other, depth_m := depth_m other,
          block_dim_m := block_dim_m other, grid_dim_m := grid_dim_m other,
          stream_m := stream_m other\<rparr>"

text \<open>Storage before its constructor has run.\<close>

definition raw_instance :: array_obj where
  "raw_instance =
     \<lparr>width_m = 0, height_m = 0, depth_m = 0,
      block_dim_m = \<lparr>dim_x = 0, dim_y = 0, dim_z = 0\<rparr>,
      grid_dim_m = \<lparr>dim_x = 0, dim_y = 0, dim_z = 0\<rparr>,
      stream_m = 0, surface = 0, boundary_mode_m = cudaBoundaryModeZero\<rparr>"

section \<open>The base class\<close>

text \<open>
  The constructor. Members are initialised in the order of their declaration: the base
  part, then the surface, then the boundary mode. An error of the surface's constructor
  leaves through the constructor unchanged; no object exists then and the world is as
  before.
\<close>

definition CudaSurface3DBase_ctor ::
  "leaf \<Rightarrow> size_t \<Rightarrow> grid_rule \<Rightarrow> addr \<Rightarrow> size_t \<Rightarrow> size_t \<Rightarrow> size_t \<Rightarrow> dim3 \<Rightarrow>
   cudaStream_t \<Rightarrow> cudaSurfaceBoundaryMode \<Rightarrow> 'v world \<Rightarrow> error + 'v world"
where
  "CudaSurface3DBase_ctor lf sizeof_T grid this width height depth block_dim stream
       boundary_mode W =
     (case CudaSharedSurfaceObject_ctor sizeof_T width height depth (IS_LAYERED lf) (dev W) of
        Inl e \<Rightarrow> Inl e
      | Inr (h, dev') \<Rightarrow>
          Inr (W\<lparr>objs := (objs W)(this \<mapsto>
                   (Base_ctor grid width height depth block_dim stream raw_instance)
                     \<lparr>surface := h, boundary_mode_m := boundary_mode\<rparr>),
                 dev := dev'\<rparr>))"

text \<open>The copy constructor: base fields, boundary mode and handle of \<open>other\<close>.\<close>

definition CudaSurface3DBase_copy_ctor :: "addr \<Rightarrow> addr \<Rightarrow> 'v world \<Rightarrow> error + 'v world" where
  "CudaSurface3DBase_copy_ctor this other W =
     (case objs W other of
        None \<Rightarrow> Inl InvalidObject
      | Some b \<Rightarrow>
          Inr (W\<lparr>objs := (objs W)(this \<mapsto>
                   (Base_assign b raw_instance)
                     \<lparr>surface := surface b, boundary_mode_m := boundary_mode_m b\<rparr>),
                 dev := acquire (surface b) (dev W)\<rparr>))"

text \<open>Assignment from another instance, with its guard against self-assignment.\<close>

definition operator_assign :: "addr \<Rightarrow> addr \<Rightarrow> 'v world \<Rightarrow> error + 'v world" where
  "operator_assign this other W =
     (if this = other then Inr W
      else case (objs W this, objs W other) of
        (Some a, Some b) \<Rightarrow>
          Inr (W\<lparr>objs := (objs W)(this \<mapsto>
                   (Base_assign b a)
                     \<lparr>surface := surface b, boundary_mode_m := boundary_mode_m b\<rparr>),
                 dev := handle_assign (surface a) (surface b) (dev W)\<rparr>)
      | _ \<Rightarrow> Inl InvalidObject)"

definition get_boundary_mode :: "addr \<Rightarrow> 'v world \<Rightarrow> error + cudaSurfaceBoundaryMode" where
  "get_boundary_mode this W =
     (case objs W this of None \<Rightarrow> Inl InvalidObject | Some a \<Rightarrow> Inr (boundary_mode_m a))"

definition set_boundary_mode ::
  "addr \<Rightarrow> cudaSurfaceBoundaryMode \<Rightarrow> 'v world \<Rightarrow> error + 'v world"
where
  "set_boundary_mode this boundary_mode W =
     (case objs W this of
        None \<Rightarrow> Inl InvalidObject
      | Some a \<Rightarrow> Inr (W\<lparr>objs := (objs W)(this \<mapsto> a\<lparr>boundary_mode_m := boundary_mode\<rparr>)\<rparr>))"

text \<open>
  The destructor has an empty body; the members are destroyed after it, and with them
  the handle, which drops its reference.
\<close>

definition CudaSurface3DBase_dtor :: "addr \<Rightarrow> 'v world \<Rightarrow> error + 'v world" where
  "CudaSurface3DBase_dtor this W =
     (case objs W this of
        None \<Rightarrow> Inl InvalidObject
      | Some a \<Rightarrow> Inr (W\<lparr>objs := (objs W)(this := None), dev := release (surface a) (dev W)\<rparr>))"


subsection \<open>Calls of the constructor\<close>

text \<open>
  A call of the constructor binds its arguments to the parameters by position:
  \<^verbatim>\<open>(size_t width, size_t height, size_t depth, dim3 block_dim = BLOCK_DIM,
  cudaStream_t stream = 0, cudaSurfaceBoundaryMode boundary_mode = cudaBoundaryModeZero)\<close>.
  An argument is an expression of one of the four types of the fields. The language
  converts it to the type of its parameter where an implicit conversion exists: an
  enumerator converts to an integer, an integer to a \<^verbatim>\<open>dim3\<close> (by the constructor
  \<^verbatim>\<open>dim3(unsigned x, unsigned y = 1, unsigned z = 1)\<close>); a \<^verbatim>\<open>dim3\<close> converts to no
  integer, a stream (a pointer) to no integer and no \<^verbatim>\<open>dim3\<close>, and nothing but an
  enumerator to the enumeration. A call with an argument that does not convert is
  ill-formed. The constant \<^verbatim>\<open>BLOCK_DIM\<close> belongs to the base class and is a parameter.
\<close>

datatype arg =
  Arg_size_t size_t
  | Arg_dim3 dim3
  | Arg_stream cudaStream_t
  | Arg_mode cudaSurfaceBoundaryMode

fun mode_value :: "cudaSurfaceBoundaryMode \<Rightarrow> nat" where
  "mode_value cudaBoundaryModeZero = 0"
| "mode_value cudaBoundaryModeClamp = 1"
| "mode_value cudaBoundaryModeTrap = 2"

fun to_size_t :: "arg \<Rightarrow> size_t option" where
  "to_size_t (Arg_size_t n) = Some n"
| "to_size_t (Arg_mode m) = Some (of_nat (mode_value m))"
| "to_size_t (Arg_dim3 d) = None"
| "to_size_t (Arg_stream s) = None"

fun to_dim3 :: "arg \<Rightarrow> dim3 option" where
  "to_dim3 (Arg_dim3 d) = Some d"
| "to_dim3 (Arg_size_t n) = Some \<lparr>dim_x = ucast n, dim_y = 1, dim_z = 1\<rparr>"
| "to_dim3 (Arg_mode m) = Some \<lparr>dim_x = of_nat (mode_value m), dim_y = 1, dim_z = 1\<rparr>"
| "to_dim3 (Arg_stream s) = None"

fun to_stream :: "arg \<Rightarrow> cudaStream_t option" where
  "to_stream (Arg_stream s) = Some s"
| "to_stream (Arg_size_t n) = None"
| "to_stream (Arg_dim3 d) = None"
| "to_stream (Arg_mode m) = None"

fun to_mode :: "arg \<Rightarrow> cudaSurfaceBoundaryMode option" where
  "to_mode (Arg_mode m) = Some m"
| "to_mode (Arg_size_t n) = None"
| "to_mode (Arg_dim3 d) = None"
| "to_mode (Arg_stream s) = None"

definition ctor_bound ::
  "leaf \<Rightarrow> size_t \<Rightarrow> grid_rule \<Rightarrow> addr \<Rightarrow> size_t option \<Rightarrow> size_t option \<Rightarrow> size_t option \<Rightarrow>
   dim3 option \<Rightarrow> cudaStream_t option \<Rightarrow> cudaSurfaceBoundaryMode option \<Rightarrow> 'v world \<Rightarrow>
   error + 'v world"
where
  "ctor_bound lf sizeof_T grid this width height depth block_dim stream boundary_mode W =
     (case (width, height, depth, block_dim, stream, boundary_mode) of
        (Some w, Some h, Some d, Some b, Some s, Some m) \<Rightarrow>
          CudaSurface3DBase_ctor lf sizeof_T grid this w h d b s m W
      | _ \<Rightarrow> Inl NoMatchingConstructor)"

fun ctor_call ::
  "leaf \<Rightarrow> size_t \<Rightarrow> grid_rule \<Rightarrow> dim3 \<Rightarrow> addr \<Rightarrow> arg list \<Rightarrow> 'v world \<Rightarrow> error + 'v world"
where
  "ctor_call lf sizeof_T grid BLOCK_DIM this [a1, a2, a3] W =
     ctor_bound lf sizeof_T grid this (to_size_t a1) (to_size_t a2) (to_size_t a3)
       (Some BLOCK_DIM) (Some 0) (Some cudaBoundaryModeZero) W"
| "ctor_call lf sizeof_T grid BLOCK_DIM this [a1, a2, a3, a4] W =
     ctor_bound lf sizeof_T grid this (to_size_t a1) (to_size_t a2) (to_size_t a3)
       (to_dim3 a4) (Some 0) (Some cudaBoundaryModeZero) W"
| "ctor_call lf sizeof_T grid BLOCK_DIM this [a1, a2, a3, a4, a5] W =
     ctor_bound lf sizeof_T grid this (to_size_t a1) (to_size_t a2) (to_size_t a3)
       (to_dim3 a4) (to_stream a5) (Some cudaBoundaryModeZero) W"
| "ctor_call lf sizeof_T grid BLOCK_DIM this [a1, a2, a3, a4, a5, a6] W =
     ctor_bound lf sizeof_T grid this (to_size_t a1) (to_size_t a2) (to_size_t a3)
       (to_dim3 a4) (to_stream a5) (to_mode a6) W"
| "ctor_call lf sizeof_T grid BLOCK_DIM this args W = Inl NoMatchingConstructor"

text \<open>
  \<^verbatim>\<open>emptyCopy\<close> calls the constructor with the five arguments
  \<^verbatim>\<open>(width_, height_, block_dim_, stream_, boundary_mode_)\<close>; the new object is
  returned by value, at the address \<open>ret\<close>.
\<close>

definition emptyCopy ::
  "leaf \<Rightarrow> size_t \<Rightarrow> grid_rule \<Rightarrow> dim3 \<Rightarrow> addr \<Rightarrow> addr \<Rightarrow> 'v world \<Rightarrow> error + 'v world"
where
  "emptyCopy lf sizeof_T grid BLOCK_DIM ret this W =
     (case objs W this of
        None \<Rightarrow> Inl InvalidObject
      | Some a \<Rightarrow>
          ctor_call lf sizeof_T grid BLOCK_DIM ret
            [Arg_size_t (width_m a), Arg_size_t (height_m a), Arg_dim3 (block_dim_m a),
             Arg_stream (stream_m a), Arg_mode (boundary_mode_m a)] W)"

section \<open>Transfers between host and device\<close>

text \<open>
  The runtime's copies between host memory and an array, as the runtime documents them:
  \<open>count\<close> bytes, in linear order, starting \<open>hOffset\<close> rows and \<open>wOffset\<close> bytes from the
  upper left corner. A copy that would leave the array is refused with a status; a host
  buffer shorter than the copy is read or written past its end, which is undefined.
  A host buffer is the list of the elements it holds.
\<close>

definition copy_start :: "'v surf_data \<Rightarrow> size_t \<Rightarrow> size_t \<Rightarrow> nat" where
  "copy_start S wOffset hOffset = unat hOffset * s_width S + unat wOffset div s_esize S"

definition cudaMemcpyToArray ::
  "handle \<Rightarrow> size_t \<Rightarrow> size_t \<Rightarrow> 'v list \<Rightarrow> size_t \<Rightarrow> 'v device \<Rightarrow> error + 'v device"
where
  "cudaMemcpyToArray dst wOffset hOffset src count dv =
     (case arrays dv dst of
        None \<Rightarrow> Inl InvalidSurface
      | Some S \<Rightarrow>
          (let n = unat count div s_esize S; start = copy_start S wOffset hOffset in
           if s_count S < start + n then Inl cudaErrorInvalidValue
           else if length src < n then Inl HostBufferOverrun
           else Inr (dv\<lparr>arrays := (arrays dv)(dst \<mapsto>
                   S\<lparr>s_mem := (\<lambda>i. if start \<le> i \<and> i < start + n
                                     then src ! (i - start) else s_mem S i)\<rparr>)\<rparr>)))"

definition cudaMemcpyFromArray ::
  "'v list \<Rightarrow> handle \<Rightarrow> size_t \<Rightarrow> size_t \<Rightarrow> size_t \<Rightarrow> 'v device \<Rightarrow> error + 'v list"
where
  "cudaMemcpyFromArray dst src wOffset hOffset count dv =
     (case arrays dv src of
        None \<Rightarrow> Inl InvalidSurface
      | Some S \<Rightarrow>
          (let n = unat count div s_esize S; start = copy_start S wOffset hOffset in
           if s_count S < start + n then Inl cudaErrorInvalidValue
           else if length dst < n then Inl HostBufferOverrun
           else Inr (map (\<lambda>i. s_mem S (start + i)) [0..<n] @ drop n dst)))"

text \<open>The statuses that the runtime returns as a \<^verbatim>\<open>cudaError_t\<close>.\<close>

fun is_status :: "error \<Rightarrow> bool" where
  "is_status cudaErrorMemoryAllocation = True"
| "is_status cudaErrorInvalidValue = True"
| "is_status e = False"

text \<open>
  The number of bytes that both transfers request:
  \<^verbatim>\<open>sizeof(Scalar) * width_ * height_ * depth_\<close>, computed in \<^verbatim>\<open>size_t\<close>.
\<close>

definition transfer_bytes :: "size_t \<Rightarrow> array_obj \<Rightarrow> size_t" where
  "transfer_bytes sizeof_T a = sizeof_T * width_m a * height_m a * depth_m a"

text \<open>
  Assignment from a host array and \<^verbatim>\<open>copyTo\<close>. Both pass the pointer and the byte
  count to the runtime and drop the status it returns. \<^verbatim>\<open>copyTo\<close> yields the host
  buffer as it is after the call.
\<close>

definition operator_assign_host :: "size_t \<Rightarrow> addr \<Rightarrow> 'v list \<Rightarrow> 'v world \<Rightarrow> error + 'v world" where
  "operator_assign_host sizeof_T this host_array W =
     (case objs W this of
        None \<Rightarrow> Inl InvalidObject
      | Some a \<Rightarrow>
          (case cudaMemcpyToArray (surface a) 0 0 host_array (transfer_bytes sizeof_T a) (dev W) of
             Inr dev' \<Rightarrow> Inr (W\<lparr>dev := dev'\<rparr>)
           | Inl e \<Rightarrow> if is_status e then Inr W else Inl e))"

definition copyTo :: "size_t \<Rightarrow> addr \<Rightarrow> 'v list \<Rightarrow> 'v world \<Rightarrow> error + 'v list" where
  "copyTo sizeof_T this host_array W =
     (case objs W this of
        None \<Rightarrow> Inl InvalidObject
      | Some a \<Rightarrow>
          (case cudaMemcpyFromArray host_array (surface a) 0 0 (transfer_bytes sizeof_T a) (dev W) of
             Inr buf \<Rightarrow> Inr buf
           | Inl e \<Rightarrow> if is_status e then Inr host_array else Inl e))"

section \<open>Element access on the device\<close>

text \<open>
  The native surface functions, as the runtime documents them. The x coordinate is a
  byte offset, y and z (or the layer) count elements; all three are \<^verbatim>\<open>int\<close>. An access
  inside the extents addresses one element. Outside the extents the boundary mode
  decides: with \<^verbatim>\<open>cudaBoundaryModeZero\<close> a read yields zero and a write is dropped,
  with \<^verbatim>\<open>cudaBoundaryModeClamp\<close> the coordinates are clamped into the extents, with
  \<^verbatim>\<open>cudaBoundaryModeTrap\<close> the kernel fails. The layered functions work on layered
  arrays and the volumetric ones on the others.
\<close>

definition in_extent :: "'v surf_data \<Rightarrow> int \<Rightarrow> int \<Rightarrow> int \<Rightarrow> bool" where
  "in_extent S xb y z =
     (0 \<le> xb \<and> xb < int (s_esize S * s_width S) \<and>
      0 \<le> y \<and> y < int (s_height S) \<and> 0 \<le> z \<and> z < int (s_depth S))"

definition lin_index :: "'v surf_data \<Rightarrow> nat \<Rightarrow> nat \<Rightarrow> nat \<Rightarrow> nat" where
  "lin_index S x y z = (z * s_height S + y) * s_width S + x"

definition clamp_coord :: "int \<Rightarrow> nat \<Rightarrow> nat" where
  "clamp_coord c n = (if c < 0 then 0 else if int n \<le> c then n - 1 else nat c)"

definition surf_locate ::
  "'v surf_data \<Rightarrow> cudaSurfaceBoundaryMode \<Rightarrow> int \<Rightarrow> int \<Rightarrow> int \<Rightarrow> error + nat option"
where
  "surf_locate S m xb y z =
     (if in_extent S xb y z
      then Inr (Some (lin_index S (nat xb div s_esize S) (nat y) (nat z)))
      else case m of
          cudaBoundaryModeZero \<Rightarrow> Inr None
        | cudaBoundaryModeClamp \<Rightarrow>
            if s_count S = 0 then Inr None
            else Inr (Some (lin_index S (clamp_coord (xb div int (s_esize S)) (s_width S))
                              (clamp_coord y (s_height S)) (clamp_coord z (s_depth S))))
        | cudaBoundaryModeTrap \<Rightarrow> Inl BoundaryTrap)"

definition surf_read ::
  "bool \<Rightarrow> handle \<Rightarrow> cint \<Rightarrow> cint \<Rightarrow> cint \<Rightarrow> cudaSurfaceBoundaryMode \<Rightarrow> ('v::zero) device \<Rightarrow>
   error + 'v"
where
  "surf_read layered h x y z m dv =
     (case arrays dv h of
        None \<Rightarrow> Inl InvalidSurface
      | Some S \<Rightarrow>
          if s_layered S \<noteq> layered then Inl InvalidSurface
          else (case surf_locate S m (sint x) (sint y) (sint z) of
                  Inl e \<Rightarrow> Inl e
                | Inr None \<Rightarrow> Inr 0
                | Inr (Some i) \<Rightarrow> Inr (s_mem S i)))"

definition surf_write ::
  "bool \<Rightarrow> 'v \<Rightarrow> handle \<Rightarrow> cint \<Rightarrow> cint \<Rightarrow> cint \<Rightarrow> cudaSurfaceBoundaryMode \<Rightarrow> 'v device \<Rightarrow>
   error + 'v device"
where
  "surf_write layered v h x y z m dv =
     (case arrays dv h of
        None \<Rightarrow> Inl InvalidSurface
      | Some S \<Rightarrow>
          if s_layered S \<noteq> layered then Inl InvalidSurface
          else (case surf_locate S m (sint x) (sint y) (sint z) of
                  Inl e \<Rightarrow> Inl e
                | Inr None \<Rightarrow> Inr dv
                | Inr (Some i) \<Rightarrow>
                    Inr (dv\<lparr>arrays := (arrays dv)(h \<mapsto> S\<lparr>s_mem := (s_mem S)(i := v)\<rparr>)\<rparr>)))"

definition surf2DLayeredread ::
  "handle \<Rightarrow> cint \<Rightarrow> cint \<Rightarrow> cint \<Rightarrow> cudaSurfaceBoundaryMode \<Rightarrow> ('v::zero) device \<Rightarrow> error + 'v"
where
  "surf2DLayeredread surfObj x y layer boundaryMode dv =
     surf_read True surfObj x y layer boundaryMode dv"

definition surf2DLayeredwrite ::
  "'v \<Rightarrow> handle \<Rightarrow> cint \<Rightarrow> cint \<Rightarrow> cint \<Rightarrow> cudaSurfaceBoundaryMode \<Rightarrow> 'v device \<Rightarrow>
   error + 'v device"
where
  "surf2DLayeredwrite v surfObj x y layer boundaryMode dv =
     surf_write True v surfObj x y layer boundaryMode dv"

definition surf3Dread ::
  "handle \<Rightarrow> cint \<Rightarrow> cint \<Rightarrow> cint \<Rightarrow> cudaSurfaceBoundaryMode \<Rightarrow> ('v::zero) device \<Rightarrow> error + 'v"
where
  "surf3Dread surfObj x y z boundaryMode dv = surf_read False surfObj x y z boundaryMode dv"

definition surf3Dwrite ::
  "'v \<Rightarrow> handle \<Rightarrow> cint \<Rightarrow> cint \<Rightarrow> cint \<Rightarrow> cudaSurfaceBoundaryMode \<Rightarrow> 'v device \<Rightarrow>
   error + 'v device"
where
  "surf3Dwrite v surfObj x y z boundaryMode dv = surf_write False v surfObj x y z boundaryMode dv"

text \<open>
  The x argument of the leaves, \<^verbatim>\<open>sizeof(T) * x\<close>: the \<^verbatim>\<open>int\<close> \<open>x\<close> is converted to
  \<^verbatim>\<open>size_t\<close>, the product is taken in \<^verbatim>\<open>size_t\<close>, and the result is converted to the
  \<^verbatim>\<open>int\<close> parameter of the surface function, which keeps its low 32 bits.
\<close>

definition byte_offset :: "size_t \<Rightarrow> cint \<Rightarrow> cint" where
  "byte_offset sizeof_T x = ucast (sizeof_T * scast x)"

text \<open>
  The accessors of the two leaves. A kernel receives the instance by value, so they work
  on the instance and the device.
\<close>

definition CudaSurface2DArray_set ::
  "size_t \<Rightarrow> array_obj \<Rightarrow> cint \<Rightarrow> cint \<Rightarrow> cint \<Rightarrow> 'v \<Rightarrow> 'v device \<Rightarrow> error + 'v device"
where
  "CudaSurface2DArray_set sizeof_T this x y z v dv =
     surf2DLayeredwrite v (surface this) (byte_offset sizeof_T x) y z (boundary_mode_m this) dv"

definition CudaSurface2DArray_get ::
  "size_t \<Rightarrow> array_obj \<Rightarrow> cint \<Rightarrow> cint \<Rightarrow> cint \<Rightarrow> ('v::zero) device \<Rightarrow> error + 'v"
where
  "CudaSurface2DArray_get sizeof_T this x y z dv =
     surf2DLayeredread (surface this) (byte_offset sizeof_T x) y z (boundary_mode_m this) dv"

definition CudaSurface3D_set ::
  "size_t \<Rightarrow> array_obj \<Rightarrow> cint \<Rightarrow> cint \<Rightarrow> cint \<Rightarrow> 'v \<Rightarrow> 'v device \<Rightarrow> error + 'v device"
where
  "CudaSurface3D_set sizeof_T this x y z v dv =
     surf3Dwrite v (surface this) (byte_offset sizeof_T x) y z (boundary_mode_m this) dv"

definition CudaSurface3D_get ::
  "size_t \<Rightarrow> array_obj \<Rightarrow> cint \<Rightarrow> cint \<Rightarrow> cint \<Rightarrow> ('v::zero) device \<Rightarrow> error + 'v"
where
  "CudaSurface3D_get sizeof_T this x y z dv =
     surf3Dread (surface this) (byte_offset sizeof_T x) y z (boundary_mode_m this) dv"

text \<open>The accessor of a leaf, chosen by the class of the instance.\<close>

fun leaf_set ::
  "leaf \<Rightarrow> size_t \<Rightarrow> array_obj \<Rightarrow> cint \<Rightarrow> cint \<Rightarrow> cint \<Rightarrow> 'v \<Rightarrow> 'v device \<Rightarrow> error + 'v device"
where
  "leaf_set CudaSurface2DArray = CudaSurface2DArray_set"
| "leaf_set CudaSurface3D = CudaSurface3D_set"

fun leaf_get ::
  "leaf \<Rightarrow> size_t \<Rightarrow> array_obj \<Rightarrow> cint \<Rightarrow> cint \<Rightarrow> cint \<Rightarrow> ('v::zero) device \<Rightarrow> error + 'v"
where
  "leaf_get CudaSurface2DArray = CudaSurface2DArray_get"
| "leaf_get CudaSurface3D = CudaSurface3D_get"

section \<open>Well-formed instances\<close>

text \<open>
  An instance of leaf \<open>lf\<close> with elements of \<open>sizeof_T\<close> bytes is well formed on a device
  when its handle references a live allocation that was made for it: same extents, same
  element size, the layout of its leaf, at least one reference, and a size in bytes
  that fits \<^verbatim>\<open>size_t\<close>. The constructor establishes this.
\<close>

definition wf_obj :: "leaf \<Rightarrow> size_t \<Rightarrow> 'v device \<Rightarrow> array_obj \<Rightarrow> bool" where
  "wf_obj lf sizeof_T dv a =
     (case arrays dv (surface a) of
        None \<Rightarrow> False
      | Some S \<Rightarrow>
          s_width S = unat (width_m a) \<and> s_height S = unat (height_m a) \<and>
          s_depth S = unat (depth_m a) \<and> s_esize S = unat sizeof_T \<and>
          s_layered S = IS_LAYERED lf \<and> 0 < s_refs S \<and> 0 < unat sizeof_T \<and>
          unat sizeof_T * s_count S < 2 ^ 64)"

text \<open>
  A coordinate is inside the declared extents of an instance when each component is
  inside its range; the byte offset of x fits an \<^verbatim>\<open>int\<close> when the product
  \<^verbatim>\<open>sizeof(T) * x\<close> is not changed by the conversion. The documented coordinate order
  puts x first: the element \<open>(x, y, z)\<close> is the \<open>x\<close>-th of row \<open>y\<close> of slice or layer \<open>z\<close>.
\<close>

definition inside :: "array_obj \<Rightarrow> cint \<Rightarrow> cint \<Rightarrow> cint \<Rightarrow> bool" where
  "inside a x y z =
     (0 \<le> sint x \<and> sint x < int (unat (width_m a)) \<and>
      0 \<le> sint y \<and> sint y < int (unat (height_m a)) \<and>
      0 \<le> sint z \<and> sint z < int (unat (depth_m a)))"

definition fits_int :: "size_t \<Rightarrow> cint \<Rightarrow> bool" where
  "fits_int sizeof_T x =
     (- (2 ^ 31) \<le> int (unat sizeof_T) * sint x \<and> int (unat sizeof_T) * sint x < 2 ^ 31)"

definition elem_index :: "array_obj \<Rightarrow> cint \<Rightarrow> cint \<Rightarrow> cint \<Rightarrow> nat" where
  "elem_index a x y z =
     (nat (sint z) * unat (height_m a) + nat (sint y)) * unat (width_m a) + nat (sint x)"

text \<open>
  The device numbers its allocations in turn: a handle from the next one on is not in
  use.
\<close>

definition fresh_handles :: "'v device \<Rightarrow> bool" where
  "fresh_handles dv = (\<forall>h. next_handle dv \<le> h \<longrightarrow> arrays dv h = None)"

text \<open>The number of elements of an instance.\<close>

definition elems :: "array_obj \<Rightarrow> nat" where
  "elems a = unat (width_m a) * unat (height_m a) * unat (depth_m a)"

text \<open>Two allocations hold the same surface when they differ in their reference count only.\<close>

definition same_surface :: "'v surf_data \<Rightarrow> 'v surf_data \<Rightarrow> bool" where
  "same_surface S S' = (S'\<lparr>s_refs := s_refs S\<rparr> = S)"

section \<open>Reachable worlds\<close>

text \<open>
  The objects that hold a handle. A world of one instantiation of the class (one leaf,
  one element size) is well formed when it has finitely many objects, each of them well
  formed, when the reference count of every allocation is the number of objects that
  hold its handle, and when the handles not yet handed out are not in use.
\<close>

definition holders :: "'v world \<Rightarrow> handle \<Rightarrow> addr set" where
  "holders W h = {a. \<exists>A. objs W a = Some A \<and> surface A = h}"

definition wf_world :: "leaf \<Rightarrow> size_t \<Rightarrow> 'v world \<Rightarrow> bool" where
  "wf_world lf sz W =
     (finite (dom (objs W)) \<and>
      (\<forall>a A. objs W a = Some A \<longrightarrow> wf_obj lf sz (dev W) A) \<and>
      (\<forall>h S. arrays (dev W) h = Some S \<longrightarrow> s_refs S = card (holders W h)) \<and>
      fresh_handles (dev W))"

text \<open>
  The worlds that a host program reaches from an empty device: it constructs and copies
  objects into storage not in use, assigns, transfers, changes boundary modes,
  destroys objects, and launches kernels that receive an instance by value and set elements through it.
\<close>

inductive reachable :: "leaf \<Rightarrow> size_t \<Rightarrow> grid_rule \<Rightarrow> 'v world \<Rightarrow> bool"
  for lf :: leaf and sz :: size_t and grid :: grid_rule
where
  start: "objs W = Map.empty \<Longrightarrow> arrays (dev W) = Map.empty \<Longrightarrow> reachable lf sz grid W"
| construct: "reachable lf sz grid W \<Longrightarrow> this \<notin> dom (objs W) \<Longrightarrow>
     CudaSurface3DBase_ctor lf sz grid this w h d b s m W = Inr W' \<Longrightarrow> reachable lf sz grid W'"
| copy: "reachable lf sz grid W \<Longrightarrow> this \<notin> dom (objs W) \<Longrightarrow>
     CudaSurface3DBase_copy_ctor this other W = Inr W' \<Longrightarrow> reachable lf sz grid W'"
| assign: "reachable lf sz grid W \<Longrightarrow> operator_assign this other W = Inr W' \<Longrightarrow>
     reachable lf sz grid W'"
| assign_host: "reachable lf sz grid W \<Longrightarrow> operator_assign_host sz this buf W = Inr W' \<Longrightarrow>
     reachable lf sz grid W'"
| set_mode: "reachable lf sz grid W \<Longrightarrow> set_boundary_mode this m W = Inr W' \<Longrightarrow>
     reachable lf sz grid W'"
| destroy: "reachable lf sz grid W \<Longrightarrow> CudaSurface3DBase_dtor this W = Inr W' \<Longrightarrow>
     reachable lf sz grid W'"
| kernel_set: "reachable lf sz grid W \<Longrightarrow> objs W a = Some A \<Longrightarrow>
     leaf_set lf sz (A\<lparr>boundary_mode_m := m\<rparr>) x y z v (dev W) = Inr dv \<Longrightarrow>
     reachable lf sz grid (W\<lparr>dev := dv\<rparr>)"

section \<open>Example worlds\<close>

text \<open>
  A device with 4096 free bytes and no allocation; a \<^verbatim>\<open>CudaSurface3D<float>\<close> of
  extents 4 x 3 x 2 constructed on it at address 1; a copy of that object at address 2;
  and a second array of the same extents with its own allocation at address 3, after
  the first has received the host array \<open>1, 2, ..., 24\<close>.
\<close>

definition ex_grid :: grid_rule where
  "ex_grid w h d b =
     \<lparr>dim_x = ucast ((w + ucast (dim_x b) - 1) div ucast (dim_x b)),
      dim_y = ucast ((h + ucast (dim_y b) - 1) div ucast (dim_y b)),
      dim_z = ucast ((d + ucast (dim_z b) - 1) div ucast (dim_z b))\<rparr>"

definition ex_block :: dim3 where
  "ex_block = \<lparr>dim_x = 4, dim_y = 1, dim_z = 1\<rparr>"

definition ex_dev0 :: "int device" where
  "ex_dev0 = \<lparr>arrays = Map.empty, free_mem = 4096, next_handle = 0, garbage = (\<lambda>i. 0)\<rparr>"

definition ex_world0 :: "int world" where
  "ex_world0 = \<lparr>objs = Map.empty, dev = ex_dev0\<rparr>"

definition ex_obj :: "handle \<Rightarrow> array_obj" where
  "ex_obj h =
     \<lparr>width_m = 4, height_m = 3, depth_m = 2, block_dim_m = ex_block,
      grid_dim_m = \<lparr>dim_x = 1, dim_y = 3, dim_z = 2\<rparr>,
      stream_m = 0, surface = h, boundary_mode_m = cudaBoundaryModeZero\<rparr>"

definition ex_surf :: "(nat \<Rightarrow> int) \<Rightarrow> nat \<Rightarrow> int surf_data" where
  "ex_surf mem refs =
     \<lparr>s_width = 4, s_height = 3, s_depth = 2, s_layered = False, s_esize = 4,
      s_mem = mem, s_refs = refs\<rparr>"

definition ex_world1 :: "int world" where
  "ex_world1 =
     \<lparr>objs = [1 \<mapsto> ex_obj 0],
      dev = \<lparr>arrays = [0 \<mapsto> ex_surf (\<lambda>i. 0) 1], free_mem = 4000, next_handle = 1,
             garbage = (\<lambda>i. 0)\<rparr>\<rparr>"

definition ex_world2 :: "int world" where
  "ex_world2 =
     \<lparr>objs = [1 \<mapsto> ex_obj 0, 2 \<mapsto> ex_obj 0],
      dev = \<lparr>arrays = [0 \<mapsto> ex_surf (\<lambda>i. 0) 2], free_mem = 4000, next_handle = 1,
             garbage = (\<lambda>i. 0)\<rparr>\<rparr>"

definition ex_mem :: "nat \<Rightarrow> int" where
  "ex_mem i = (if i < 24 then int i + 1 else 0)"

definition ex_world3 :: "int world" where
  "ex_world3 =
     \<lparr>objs = [1 \<mapsto> ex_obj 0, 3 \<mapsto> ex_obj 1],
      dev = \<lparr>arrays = [0 \<mapsto> ex_surf ex_mem 1, 1 \<mapsto> ex_surf (\<lambda>i. 0) 1],
             free_mem = 3904, next_handle = 2, garbage = (\<lambda>i. 0)\<rparr>\<rparr>"

text \<open>A device without room for the array: 64 free bytes, 96 needed.\<close>

definition ex_world_full :: "int world" where
  "ex_world_full = ex_world0\<lparr>dev := ex_dev0\<lparr>free_mem := 64\<rparr>\<rparr>"

text \<open>
  An array of extents 1 x 1 x 1 with 4-byte elements, of either leaf, after 7 has been
  set at \<open>(0, 0, 0)\<close>.
\<close>

definition ex_unit_obj :: array_obj where
  "ex_unit_obj =
     \<lparr>width_m = 1, height_m = 1, depth_m = 1, block_dim_m = ex_block,
      grid_dim_m = \<lparr>dim_x = 1, dim_y = 1, dim_z = 1\<rparr>,
      stream_m = 0, surface = 0, boundary_mode_m = cudaBoundaryModeZero\<rparr>"

definition ex_unit_dev :: "bool \<Rightarrow> int device" where
  "ex_unit_dev layered =
     \<lparr>arrays = [0 \<mapsto> \<lparr>s_width = 1, s_height = 1, s_depth = 1, s_layered = layered,
                        s_esize = 4, s_mem = (\<lambda>i. 0)(0 := 7), s_refs = 1\<rparr>],
      free_mem = 4092, next_handle = 1, garbage = (\<lambda>i. 0)\<rparr>"

section \<open>Auxiliary facts\<close>

lemma uint_pos: "0 < unat w \<Longrightarrow> 0 < uint w"
  for w :: "'a::len word"
proof -
  assume "0 < unat w"
  then have "uint w \<noteq> 0" by (auto simp: uint_0_iff)
  moreover have "0 \<le> uint w" by simp
  ultimately show ?thesis by linarith
qed

lemma ucast_of_int_down: "(ucast (word_of_int k :: 64 word) :: 32 word) = word_of_int k"
  by (simp add: unsigned_of_int word_of_int_eq_iff)

lemma byte_offset_of_int: "byte_offset sz x = word_of_int (uint sz * sint x)"
proof -
  have "(scast x :: 64 word) = word_of_int (sint x)"
    by (simp only: of_int_sint)
  moreover have "sz = word_of_int (uint sz)"
    by simp
  ultimately have "sz * scast x = (word_of_int (uint sz * sint x) :: 64 word)"
    by (metis of_int_mult)
  then show ?thesis
    by (simp only: byte_offset_def ucast_of_int_down)
qed

lemma sint_byte_offset:
  assumes "- (2 ^ 31) \<le> int (unat sz) * sint x" "int (unat sz) * sint x < 2 ^ 31"
  shows "sint (byte_offset sz x) = int (unat sz) * sint x"
proof -
  have "sint (byte_offset sz x) = signed_take_bit 31 (uint sz * sint x)"
    by (simp only: byte_offset_of_int sint_sbintrunc') simp
  also have "\<dots> = uint sz * sint x"
    using assms by (intro signed_take_bit_int_eq_self) simp_all
  finally show ?thesis by simp
qed

lemma leaf_get_eq:
  "leaf_get lf sz a x y z dv =
     surf_read (IS_LAYERED lf) (surface a) (byte_offset sz x) y z (boundary_mode_m a) dv"
  by (cases lf)
     (simp_all add: CudaSurface2DArray_get_def CudaSurface3D_get_def surf2DLayeredread_def
        surf3Dread_def)

lemma leaf_set_eq:
  "leaf_set lf sz a x y z v dv =
     surf_write (IS_LAYERED lf) v (surface a) (byte_offset sz x) y z (boundary_mode_m a) dv"
  by (cases lf)
     (simp_all add: CudaSurface2DArray_set_def CudaSurface3D_set_def surf2DLayeredwrite_def
        surf3Dwrite_def)

lemma wf_objD:
  assumes "wf_obj lf sz dv a"
  obtains S where "arrays dv (surface a) = Some S"
    "s_width S = unat (width_m a)" "s_height S = unat (height_m a)"
    "s_depth S = unat (depth_m a)" "s_esize S = unat sz" "s_layered S = IS_LAYERED lf"
    "0 < s_refs S" "0 < unat sz" "unat sz * s_count S < 2 ^ 64"
  using assms by (auto simp: wf_obj_def split: option.splits)

text \<open>An access inside the extents addresses the element of the documented order.\<close>

lemma locate_inside:
  assumes "s_width S = unat (width_m a)" "s_height S = unat (height_m a)"
    "s_depth S = unat (depth_m a)" "s_esize S = unat sz" "0 < unat sz"
    and "inside a x y z" "fits_int sz x"
  shows "surf_locate S m (sint (byte_offset sz x)) (sint y) (sint z) = Inr (Some (elem_index a x y z))"
proof -
  have xb: "sint (byte_offset sz x) = int (unat sz) * sint x"
    using assms(7) by (simp add: fits_int_def sint_byte_offset)
  have x: "0 \<le> sint x" "sint x < int (unat (width_m a))"
    using assms(6) by (simp_all add: inside_def)
  have lo: "0 \<le> int (unat sz) * sint x"
    using x(1) by simp
  have pos: "0 < uint sz"
    using assms(5) by (rule uint_pos)
  have hi: "int (unat sz) * sint x < int (unat sz * unat (width_m a))"
    using x(2) pos by (simp add: mult_strict_left_mono)
  have dv: "nat (int (unat sz) * sint x) div unat sz = nat (sint x)"
    using assms(5) x(1) by (simp add: nat_mult_distrib)
  have "in_extent S (int (unat sz) * sint x) (sint y) (sint z)"
    using assms(1-4,6) lo hi by (simp add: in_extent_def inside_def)
  then show ?thesis
    using assms(1-4) dv by (simp add: surf_locate_def xb lin_index_def elem_index_def)
qed

text \<open>
  An access outside the declared extents is outside the extents of the allocation,
  provided that the byte offset of x fits an \<^verbatim>\<open>int\<close> or that y or z is outside.
\<close>

lemma outside_not_in_extent:
  assumes "s_width S = unat (width_m a)" "s_height S = unat (height_m a)"
    "s_depth S = unat (depth_m a)" "s_esize S = unat sz" "0 < unat sz"
    and "\<not> inside a x y z"
    and "fits_int sz x \<or> \<not> (0 \<le> sint y \<and> sint y < int (unat (height_m a)))
           \<or> \<not> (0 \<le> sint z \<and> sint z < int (unat (depth_m a)))"
  shows "\<not> in_extent S (sint (byte_offset sz x)) (sint y) (sint z)"
proof (cases "(0 \<le> sint y \<and> sint y < int (unat (height_m a))) \<and>
              (0 \<le> sint z \<and> sint z < int (unat (depth_m a)))")
  case False
  then show ?thesis using assms(2,3) by (auto simp: in_extent_def)
next
  case True
  with assms(7) have f: "fits_int sz x" by blast
  from True assms(6) have xo: "sint x < 0 \<or> int (unat (width_m a)) \<le> sint x"
    by (auto simp: inside_def)
  have xb: "sint (byte_offset sz x) = int (unat sz) * sint x"
    using f by (simp add: fits_int_def sint_byte_offset)
  from xo show ?thesis
  proof
    assume "sint x < 0"
    moreover have "0 < uint sz"
      using assms(5) by (rule uint_pos)
    ultimately have "int (unat sz) * sint x < 0"
      by (simp add: mult_pos_neg)
    then show ?thesis by (simp add: in_extent_def xb)
  next
    assume "int (unat (width_m a)) \<le> sint x"
    then have "int (unat sz) * int (unat (width_m a)) \<le> int (unat sz) * sint x"
      by (intro mult_left_mono) simp_all
    then show ?thesis using assms(1,4) by (simp add: in_extent_def xb)
  qed
qed

text \<open>What the boundary modes zero and trap make of such an access.\<close>

lemma locate_outside:
  assumes "s_width S = unat (width_m a)" "s_height S = unat (height_m a)"
    "s_depth S = unat (depth_m a)" "s_esize S = unat sz" "0 < unat sz"
    and "\<not> inside a x y z"
    and "fits_int sz x \<or> \<not> (0 \<le> sint y \<and> sint y < int (unat (height_m a)))
           \<or> \<not> (0 \<le> sint z \<and> sint z < int (unat (depth_m a)))"
  shows "surf_locate S cudaBoundaryModeZero (sint (byte_offset sz x)) (sint y) (sint z) = Inr None"
    and "surf_locate S cudaBoundaryModeTrap (sint (byte_offset sz x)) (sint y) (sint z)
           = Inl BoundaryTrap"
  using outside_not_in_extent [OF assms] by (simp_all add: surf_locate_def)

text \<open>
  A write through any instance that holds the handle of \<open>a\<close>, inside the extents, is read
  back through \<open>a\<close>, whatever the boundary modes of the two instances.
\<close>

lemma set_then_get:
  assumes "wf_obj lf sz dv a" "surface b = surface a" "inside a x y z" "fits_int sz x"
  shows "\<exists>dv'. leaf_set lf sz b x y z v dv = Inr dv' \<and> leaf_get lf sz a x y z dv' = Inr v \<and>
           wf_obj lf sz dv' a"
proof -
  from assms(1) obtain S where S: "arrays dv (surface a) = Some S"
    "s_width S = unat (width_m a)" "s_height S = unat (height_m a)"
    "s_depth S = unat (depth_m a)" "s_esize S = unat sz" "s_layered S = IS_LAYERED lf"
    "0 < s_refs S" "0 < unat sz" "unat sz * s_count S < 2 ^ 64"
    by (rule wf_objD)
  let ?i = "elem_index a x y z"
  let ?S' = "S\<lparr>s_mem := (s_mem S)(?i := v)\<rparr>"
  let ?dv' = "dv\<lparr>arrays := (arrays dv)(surface a \<mapsto> ?S')\<rparr>"
  have loc: "surf_locate S m (sint (byte_offset sz x)) (sint y) (sint z) = Inr (Some ?i)" for m
    using S(2-5,8) assms(3,4) by (rule locate_inside)
  have loc': "surf_locate ?S' m (sint (byte_offset sz x)) (sint y) (sint z) = Inr (Some ?i)" for m
    using S(2-5,8) assms(3,4) by (intro locate_inside) simp_all
  have w: "leaf_set lf sz b x y z v dv = Inr ?dv'"
    using S(1,6) assms(2) by (simp add: leaf_set_eq surf_write_def loc)
  have r: "leaf_get lf sz a x y z ?dv' = Inr v"
    using S(6) by (simp add: leaf_get_eq surf_read_def loc')
  have "wf_obj lf sz ?dv' a"
    using S by (simp add: wf_obj_def s_count_def)
  with w r show ?thesis by blast
qed

text \<open>The example worlds are what the constructors make of the empty device.\<close>

lemma ex_world1_constructed:
  "CudaSurface3DBase_ctor CudaSurface3D 4 ex_grid 1 4 3 2 ex_block 0 cudaBoundaryModeZero ex_world0
     = Inr ex_world1"
  by (simp add: CudaSurface3DBase_ctor_def CudaSharedSurfaceObject_ctor_def Base_ctor_def
      raw_instance_def ex_world0_def ex_dev0_def ex_world1_def ex_obj_def ex_surf_def ex_grid_def
      ex_block_def)

lemma ex_world2_copied: "CudaSurface3DBase_copy_ctor 2 1 ex_world1 = Inr ex_world2"
  by (simp add: CudaSurface3DBase_copy_ctor_def Base_assign_def raw_instance_def acquire_def
      ex_world1_def ex_world2_def ex_obj_def ex_surf_def fun_upd_twist numeral_2_eq_2)

text \<open>Reference counts: what acquiring and releasing a handle do to the table.\<close>

lemma ex_world3_reached:
  "\<exists>W. CudaSurface3DBase_ctor CudaSurface3D 4 ex_grid 3 4 3 2 ex_block 0 cudaBoundaryModeZero
          ex_world1 = Inr W \<and>
        operator_assign_host 4 1 (map (\<lambda>i. int i + 1) [0..<24]) W = Inr ex_world3"
proof -
  let ?W = "\<lparr>objs = [1 \<mapsto> ex_obj 0, 3 \<mapsto> ex_obj 1],
      dev = \<lparr>arrays = [0 \<mapsto> ex_surf (\<lambda>i. 0) 1, 1 \<mapsto> ex_surf (\<lambda>i. 0) 1],
             free_mem = 3904, next_handle = 2, garbage = (\<lambda>i. 0 :: int)\<rparr>\<rparr>"
  have c: "CudaSurface3DBase_ctor CudaSurface3D 4 ex_grid 3 4 3 2 ex_block 0
      cudaBoundaryModeZero ex_world1 = Inr ?W"
    by (simp add: CudaSurface3DBase_ctor_def CudaSharedSurfaceObject_ctor_def Base_ctor_def
        raw_instance_def ex_world1_def ex_obj_def ex_surf_def ex_grid_def ex_block_def)
  have "operator_assign_host 4 1 (map (\<lambda>i. int i + 1) [0..<24]) ?W = Inr ex_world3"
    by (auto simp: operator_assign_host_def cudaMemcpyToArray_def transfer_bytes_def
        copy_start_def s_count_def Let_def ex_world3_def ex_obj_def ex_surf_def ex_mem_def
        fun_eq_iff)
  with c show ?thesis by blast
qed

lemma ex_unit_dev_reached:
  "\<exists>W. CudaSurface3DBase_ctor lf 4 ex_grid 1 1 1 1 ex_block 0 cudaBoundaryModeZero ex_world0
          = Inr W \<and>
        objs W 1 = Some ex_unit_obj \<and>
        leaf_set lf 4 ex_unit_obj 0 0 0 7 (dev W) = Inr (ex_unit_dev (IS_LAYERED lf))"
proof -
  let ?W = "\<lparr>objs = [1 \<mapsto> ex_unit_obj],
      dev = \<lparr>arrays = [0 \<mapsto> \<lparr>s_width = 1, s_height = 1, s_depth = 1,
                      s_layered = IS_LAYERED lf, s_esize = 4, s_mem = (\<lambda>i. 0), s_refs = 1\<rparr>],
             free_mem = 4092, next_handle = 1, garbage = (\<lambda>i. 0 :: int)\<rparr>\<rparr>"
  have c: "CudaSurface3DBase_ctor lf 4 ex_grid 1 1 1 1 ex_block 0 cudaBoundaryModeZero ex_world0
      = Inr ?W"
    by (simp add: CudaSurface3DBase_ctor_def CudaSharedSurfaceObject_ctor_def Base_ctor_def
        raw_instance_def ex_world0_def ex_dev0_def ex_unit_obj_def ex_grid_def ex_block_def)
  have b: "byte_offset 4 0 = 0"
    by (simp add: byte_offset_def)
  have "leaf_set lf 4 ex_unit_obj 0 0 0 7 (dev ?W) = Inr (ex_unit_dev (IS_LAYERED lf))"
    by (simp add: leaf_set_eq surf_write_def surf_locate_def in_extent_def lin_index_def b
        ex_unit_obj_def ex_unit_dev_def)
  with c show ?thesis by simp
qed

lemma same_surface_refs: "same_surface S (S\<lparr>s_refs := n\<rparr>)"
  by (simp add: same_surface_def)

lemma acquire_arrays:
  "arrays (acquire h dv) k =
     (if k = h then map_option (\<lambda>S. S\<lparr>s_refs := Suc (s_refs S)\<rparr>) (arrays dv h)
      else arrays dv k)"
  by (simp add: acquire_def split: option.splits)

lemma acquire_fields:
  "next_handle (acquire h dv) = next_handle dv" "free_mem (acquire h dv) = free_mem dv"
  "garbage (acquire h dv) = garbage dv"
  by (simp_all add: acquire_def split: option.splits)

lemma release_arrays_other: "k \<noteq> h \<Longrightarrow> arrays (release h dv) k = arrays dv k"
  by (simp add: release_def split: option.splits)

lemma release_arrays_same:
  "arrays (release h dv) h =
     (case arrays dv h of
        None \<Rightarrow> None
      | Some S \<Rightarrow> if s_refs S \<le> 1 then None else Some (S\<lparr>s_refs := s_refs S - 1\<rparr>))"
  by (simp add: release_def split: option.splits)

lemma release_next_handle: "next_handle (release h dv) = next_handle dv"
  by (simp add: release_def split: option.splits)

lemma same_surface_fields:
  assumes "same_surface S S'"
  shows "s_width S' = s_width S" "s_height S' = s_height S" "s_depth S' = s_depth S"
    "s_layered S' = s_layered S" "s_esize S' = s_esize S" "s_mem S' = s_mem S"
    "s_count S' = s_count S"
  using assms by (cases S; cases S'; simp add: same_surface_def s_count_def)+

lemma wf_obj_same_surface:
  assumes "wf_obj lf sz dv a" "arrays dv (surface a) = Some S"
    "arrays dv' (surface a) = Some S'" "same_surface S S'" "0 < s_refs S'"
  shows "wf_obj lf sz dv' a"
  using assms(1,2,3,5) same_surface_fields [OF assms(4)]
  by (simp add: wf_obj_def)

text \<open>Assigning a handle keeps every allocation that stays, and keeps the one assigned.\<close>

lemma handle_assign_arrays:
  assumes "arrays dv new = Some S" "0 < s_refs S"
  shows "\<exists>S'. arrays (handle_assign old new dv) new = Some S' \<and> same_surface S S' \<and> 0 < s_refs S'"
    and "arrays (handle_assign old new dv) k = Some T' \<Longrightarrow>
           \<exists>T. arrays dv k = Some T \<and> same_surface T T'"
    and "next_handle (handle_assign old new dv) = next_handle dv"
proof -
  show "\<exists>S'. arrays (handle_assign old new dv) new = Some S' \<and> same_surface S S' \<and> 0 < s_refs S'"
  proof (cases "old = new")
    case True
    then show ?thesis using assms
      by (simp add: handle_assign_def release_arrays_same acquire_arrays same_surface_def)
  next
    case False
    then show ?thesis using assms
      by (simp add: handle_assign_def release_arrays_other acquire_arrays same_surface_def)
  qed
  show "\<exists>T. arrays dv k = Some T \<and> same_surface T T'"
    if "arrays (handle_assign old new dv) k = Some T'"
  proof (cases "k = old")
    case True
    then show ?thesis using that
      by (auto simp: handle_assign_def release_arrays_same acquire_arrays same_surface_def
          split: option.splits if_splits)
  next
    case False
    then show ?thesis using that
      by (auto simp: handle_assign_def release_arrays_other acquire_arrays same_surface_def
          split: option.splits if_splits)
  qed
  show "next_handle (handle_assign old new dv) = next_handle dv"
    by (simp add: handle_assign_def release_next_handle acquire_fields)
qed


lemma same_surface_refl: "same_surface S S"
  by (simp add: same_surface_def)



lemma operator_assign_result:
  assumes "objs W other = Some B" and "objs W this = Some A" and "wf_obj lf sz (dev W) B"
  obtains W' S S' where "operator_assign this other W = Inr W'"
    "objs W' this = Some B" "objs W' other = Some B"
    "arrays (dev W) (surface B) = Some S" "arrays (dev W') (surface B) = Some S'"
    "same_surface S S'" "wf_obj lf sz (dev W') B"
    "next_handle (dev W') = next_handle (dev W)"
    "\<forall>k T'. arrays (dev W') k = Some T' \<longrightarrow> (\<exists>T. arrays (dev W) k = Some T \<and> same_surface T T')"
proof -
  from assms(3) obtain S where S: "arrays (dev W) (surface B) = Some S" "0 < s_refs S"
    by (rule wf_objD)
  show thesis
  proof (cases "this = other")
    case True
    then have "operator_assign this other W = Inr W"
      by (simp add: operator_assign_def)
    moreover have "objs W this = Some B"
      using True assms(1) by simp
    moreover have "\<forall>k T'. arrays (dev W) k = Some T' \<longrightarrow>
        (\<exists>T. arrays (dev W) k = Some T \<and> same_surface T T')"
      by (simp add: same_surface_refl)
    ultimately show thesis
      using assms(1,3) S(1) same_surface_refl [of S] by (intro that [of W S S]) simp_all
  next
    case False
    let ?A' = "(Base_assign B A)\<lparr>surface := surface B, boundary_mode_m := boundary_mode_m B\<rparr>"
    have A': "?A' = B"
      by (simp add: Base_assign_def)
    let ?dv = "handle_assign (surface A) (surface B) (dev W)"
    let ?W' = "W\<lparr>objs := (objs W)(this \<mapsto> B), dev := ?dv\<rparr>"
    have c: "operator_assign this other W = Inr ?W'"
      using False assms(1,2) by (simp add: operator_assign_def A')
    have o: "objs ?W' this = Some B" "objs ?W' other = Some B"
      using assms(1) by simp_all
    from handle_assign_arrays(1) [OF S, of "surface A"]
    obtain S' where S': "arrays ?dv (surface B) = Some S'" "same_surface S S'" "0 < s_refs S'"
      by blast
    have wf: "wf_obj lf sz (dev ?W') B"
      using assms(3) S(1) _ S'(2,3) by (rule wf_obj_same_surface) (simp add: S'(1))
    have nh: "next_handle (dev ?W') = next_handle (dev W)"
      using handle_assign_arrays(3) [OF S] by simp
    have rest: "\<forall>k T'. arrays (dev ?W') k = Some T' \<longrightarrow>
        (\<exists>T. arrays (dev W) k = Some T \<and> same_surface T T')"
      using handle_assign_arrays(2) [OF S] by simp
    have a: "arrays (dev ?W') (surface B) = Some S'"
      using S'(1) by simp
    from c o S(1) a S'(2) wf nh rest show thesis
      by (rule that)
  qed
qed

lemma ex_world3_wf:
  "objs ex_world3 1 = Some (ex_obj 0)" "objs ex_world3 3 = Some (ex_obj 1)"
  "wf_obj CudaSurface3D 4 (dev ex_world3) (ex_obj 0)"
  "wf_obj CudaSurface3D 4 (dev ex_world3) (ex_obj 1)"
  by (simp_all add: ex_world3_def ex_obj_def ex_surf_def wf_obj_def s_count_def)


text \<open>
  The call in \<^verbatim>\<open>emptyCopy\<close> binds \<^verbatim>\<open>block_dim_\<close> to the parameter \<^verbatim>\<open>depth\<close>, and
  a \<^verbatim>\<open>dim3\<close> converts to no \<^verbatim>\<open>size_t\<close>: whatever the instance, no object is made.
\<close>

lemma emptyCopy_ill_formed:
  "emptyCopy lf sz grid BLOCK_DIM ret this W =
     (case objs W this of None \<Rightarrow> Inl InvalidObject | Some a \<Rightarrow> Inl NoMatchingConstructor)"
  by (simp add: emptyCopy_def ctor_bound_def split: option.splits)


text \<open>
  The byte count of the transfers, and what the transfers do on a well-formed instance.
\<close>

lemma transfer_bytes_of_nat:
  "transfer_bytes sz a =
     of_nat (unat sz * (unat (width_m a) * unat (height_m a) * unat (depth_m a)))"
  by (simp add: transfer_bytes_def mult.assoc)

lemma unat_transfer_bytes:
  assumes "unat sz * (unat (width_m a) * unat (height_m a) * unat (depth_m a)) < 2 ^ 64"
  shows "unat (transfer_bytes sz a) =
     unat sz * (unat (width_m a) * unat (height_m a) * unat (depth_m a))"
proof -
  let ?n = "unat sz * (unat (width_m a) * unat (height_m a) * unat (depth_m a))"
  have "unat (transfer_bytes sz a) = ?n mod 2 ^ 64"
    by (simp only: transfer_bytes_of_nat unat_of_nat) simp
  with assms show ?thesis by simp
qed



lemma wf_obj_transfer:
  assumes "wf_obj lf sz dv a" "arrays dv (surface a) = Some S"
  shows "s_count S = elems a" "unat (transfer_bytes sz a) div s_esize S = elems a"
    "copy_start S 0 0 = 0" "unat (transfer_bytes sz a) = unat sz * elems a"
proof -
  from assms obtain w: "s_width S = unat (width_m a)" "s_height S = unat (height_m a)"
    "s_depth S = unat (depth_m a)" "s_esize S = unat sz" "0 < unat sz"
    "unat sz * s_count S < 2 ^ 64"
    by (auto elim: wf_objD)
  show c: "s_count S = elems a"
    using w(1-3) by (simp add: s_count_def elems_def)
  show b: "unat (transfer_bytes sz a) = unat sz * elems a"
    using w(6) unfolding c elems_def by (rule unat_transfer_bytes)
  show "unat (transfer_bytes sz a) div s_esize S = elems a"
    using w(4,5) by (simp add: b)
  show "copy_start S 0 0 = 0"
    by (simp add: copy_start_def)
qed

lemma lin_bound:
  fixes x y z w h d :: nat
  assumes "x < w" "y < h" "z < d"
  shows "(z * h + y) * w + x < w * h * d"
proof -
  have "z * h + y < Suc z * h"
    using assms(2) by simp
  also have "\<dots> \<le> d * h"
    using assms(3) by (intro mult_le_mono1) simp
  finally have "Suc (z * h + y) \<le> d * h"
    by simp
  then have "Suc (z * h + y) * w \<le> d * h * w"
    by (rule mult_le_mono1)
  moreover have "(z * h + y) * w + x < Suc (z * h + y) * w"
    using assms(1) by simp
  ultimately show ?thesis
    by (simp add: ac_simps)
qed

lemma elem_index_bound:
  assumes "inside a x y z"
  shows "elem_index a x y z < elems a"
  unfolding elem_index_def elems_def
  using assms by (intro lin_bound) (simp_all add: inside_def nat_less_iff)

lemma operator_assign_host_result:
  assumes "objs W a = Some A" "wf_obj lf sz (dev W) A" "arrays (dev W) (surface A) = Some S"
  shows "operator_assign_host sz a buf W =
     (if length buf < elems A then Inl HostBufferOverrun
      else Inr (W\<lparr>dev := (dev W)\<lparr>arrays := (arrays (dev W))(surface A \<mapsto>
             S\<lparr>s_mem := (\<lambda>i. if i < elems A then buf ! i else s_mem S i)\<rparr>)\<rparr>\<rparr>))"
  using assms(1,3) wf_obj_transfer(1-3) [OF assms(2,3)]
  by (simp add: operator_assign_host_def cudaMemcpyToArray_def Let_def cong: if_cong)

lemma copyTo_result:
  assumes "objs W a = Some A" "wf_obj lf sz (dev W) A" "arrays (dev W) (surface A) = Some S"
  shows "copyTo sz a buf W =
     (if length buf < elems A then Inl HostBufferOverrun
      else Inr (map (s_mem S) [0..<elems A] @ drop (elems A) buf))"
  using assms(1,3) wf_obj_transfer(1-3) [OF assms(2,3)]
  by (simp add: copyTo_def cudaMemcpyFromArray_def Let_def)


lemma ex_unit_wf:
  "wf_obj CudaSurface3D 4 (ex_unit_dev False) ex_unit_obj"
  "wf_obj CudaSurface2DArray 4 (ex_unit_dev True) ex_unit_obj"
  "boundary_mode_m ex_unit_obj = cudaBoundaryModeZero"
  by (simp_all add: wf_obj_def ex_unit_dev_def ex_unit_obj_def s_count_def)


subsection \<open>Every reachable world is well formed\<close>

lemma holders_finite: "finite (dom (objs W)) \<Longrightarrow> finite (holders W h)"
  by (rule finite_subset [of _ "dom (objs W)"]) (auto simp: holders_def)

lemma holders_upd:
  "holders (W\<lparr>objs := (objs W)(this \<mapsto> B), dev := dv\<rparr>) h =
     (if surface B = h then insert this (holders W h) else holders W h - {this})"
  by (auto simp: holders_def)

lemma holders_dev: "holders (W\<lparr>dev := dv\<rparr>) h = holders W h"
  by (simp add: holders_def)

lemma wf_world_empty: "wf_world lf sz ex_world0"
  by (simp add: wf_world_def ex_world0_def ex_dev0_def fresh_handles_def)

lemma wf_obj_live: "wf_obj lf sz dv a \<Longrightarrow> arrays dv (surface a) \<noteq> None"
  by (auto elim: wf_objD)

lemma wf_world_ctor:
  assumes "wf_world lf sz W" "this \<notin> dom (objs W)" "0 < unat sz"
    and "CudaSurface3DBase_ctor lf sz grid this w h d b s m W = Inr W'"
  shows "wf_world lf sz W'"
proof -
  let ?n = "unat sz * (unat w * unat h * unat d)"
  let ?h = "next_handle (dev W)"
  let ?S = "\<lparr>s_width = unat w, s_height = unat h, s_depth = unat d,
             s_layered = IS_LAYERED lf, s_esize = unat sz,
             s_mem = garbage (dev W), s_refs = 1\<rparr>"
  let ?A = "\<lparr>width_m = w, height_m = h, depth_m = d, block_dim_m = b,
             grid_dim_m = grid w h d b, stream_m = s, surface = ?h, boundary_mode_m = m\<rparr>"
  let ?dv = "(dev W)\<lparr>arrays := (arrays (dev W))(?h \<mapsto> ?S),
               free_mem := free_mem (dev W) - of_nat ?n, next_handle := Suc ?h\<rparr>"
  from assms(4) have fit: "?n \<le> unat (free_mem (dev W))"
    and W': "W' = W\<lparr>objs := (objs W)(this \<mapsto> ?A), dev := ?dv\<rparr>"
    by (auto simp: CudaSurface3DBase_ctor_def CudaSharedSurfaceObject_ctor_def Let_def
        Base_ctor_def raw_instance_def split: if_splits)
  have lt: "?n < 2 ^ 64"
    using fit unsigned_less [of "free_mem (dev W)", where 'a = nat] by simp
  from assms(1) have fin: "finite (dom (objs W))"
    and objs: "\<And>a A. objs W a = Some A \<Longrightarrow> wf_obj lf sz (dev W) A"
    and refs: "\<And>h S. arrays (dev W) h = Some S \<Longrightarrow> s_refs S = card (holders W h)"
    and fresh: "fresh_handles (dev W)"
    by (simp_all add: wf_world_def)
  from fresh have free: "arrays (dev W) ?h = None"
    by (simp add: fresh_handles_def)
  have nothere: "surface A \<noteq> ?h" if "objs W a = Some A" for a A
    using wf_obj_live [OF objs [OF that]] free by auto
  then have h0: "holders W ?h = {}"
    by (auto simp: holders_def)
  have 1: "finite (dom (objs W'))"
    using fin by (simp add: W')
  have 2: "wf_obj lf sz (dev W') A" if "objs W' a = Some A" for a A
  proof (cases "a = this")
    case True
    with that have "A = ?A" by (simp add: W')
    then show ?thesis
      using assms(3) lt by (simp add: W' wf_obj_def s_count_def)
  next
    case False
    with that have "objs W a = Some A" by (simp add: W')
    from objs [OF this] nothere [OF this] show ?thesis
      by (simp add: W' wf_obj_def)
  qed
  have 3: "s_refs S = card (holders W' k)" if "arrays (dev W') k = Some S" for k S
  proof (cases "k = ?h")
    case True
    with that have "S = ?S" by (simp add: W')
    then show ?thesis
      using True h0 by (simp add: W' holders_upd)
  next
    case False
    with that have a: "arrays (dev W) k = Some S" by (simp add: W')
    have "this \<notin> holders W k"
      using assms(2) by (auto simp: holders_def)
    then show ?thesis
      using False refs [OF a] by (simp add: W' holders_upd)
  qed
  have 4: "fresh_handles (dev W')"
    using fresh by (simp add: W' fresh_handles_def)
  from 1 2 3 4 show ?thesis
    by (simp add: wf_world_def)
qed


lemma wf_worldD:
  assumes "wf_world lf sz W"
  shows "finite (dom (objs W))"
    and "\<And>a A. objs W a = Some A \<Longrightarrow> wf_obj lf sz (dev W) A"
    and "\<And>h S. arrays (dev W) h = Some S \<Longrightarrow> s_refs S = card (holders W h)"
    and "fresh_handles (dev W)"
  using assms by (simp_all add: wf_world_def)

lemma wf_obj_arrays_eq:
  assumes "wf_obj lf sz dv a" "arrays dv' (surface a) = arrays dv (surface a)"
  shows "wf_obj lf sz dv' a"
  using assms by (simp add: wf_obj_def)

lemma wf_world_copy_ctor:
  assumes "wf_world lf sz W" "this \<notin> dom (objs W)"
    and "CudaSurface3DBase_copy_ctor this other W = Inr W'"
  shows "wf_world lf sz W'"
proof -
  note inv = wf_worldD [OF assms(1)]
  from assms(3) obtain B where B: "objs W other = Some B"
    by (auto simp: CudaSurface3DBase_copy_ctor_def split: option.splits)
  have "(Base_assign B raw_instance)\<lparr>surface := surface B, boundary_mode_m := boundary_mode_m B\<rparr> = B"
    by (simp add: Base_assign_def raw_instance_def)
  with assms(3) B have W': "W' = W\<lparr>objs := (objs W)(this \<mapsto> B), dev := acquire (surface B) (dev W)\<rparr>"
    by (simp add: CudaSurface3DBase_copy_ctor_def)
  from inv(2) [OF B] obtain S where S: "arrays (dev W) (surface B) = Some S"
    by (rule wf_objD)
  have notin: "this \<notin> holders W k" for k
    using assms(2) by (auto simp: holders_def)
  have 1: "finite (dom (objs W'))"
    using inv(1) by (simp add: W')
  have keep: "wf_obj lf sz (dev W') A" if "wf_obj lf sz (dev W) A" for A
  proof (cases "surface A = surface B")
    case True
    show ?thesis
      using that
    proof (rule wf_obj_same_surface)
      show "arrays (dev W) (surface A) = Some S"
        using True S by simp
      show "arrays (dev W') (surface A) = Some (S\<lparr>s_refs := Suc (s_refs S)\<rparr>)"
        using True S by (simp add: W' acquire_arrays)
      show "same_surface S (S\<lparr>s_refs := Suc (s_refs S)\<rparr>)"
        by (rule same_surface_refs)
    qed simp
  next
    case False
    then show ?thesis
      using that by (intro wf_obj_arrays_eq [OF that]) (simp add: W' acquire_arrays)
  qed
  have 2: "wf_obj lf sz (dev W') A" if "objs W' a = Some A" for a A
  proof -
    from that have "objs W a = Some A \<or> A = B"
      by (auto simp: W' split: if_splits)
    with inv(2) B have "wf_obj lf sz (dev W) A" by blast
    then show ?thesis by (rule keep)
  qed
  have 3: "s_refs T = card (holders W' k)" if "arrays (dev W') k = Some T" for k T
  proof (cases "k = surface B")
    case True
    with that S have T: "T = S\<lparr>s_refs := Suc (s_refs S)\<rparr>"
      by (simp add: W' acquire_arrays)
    have "card (holders W' k) = Suc (card (holders W k))"
      using True notin holders_finite [OF inv(1)] by (simp add: W' holders_upd)
    then show ?thesis
      using T True inv(3) [OF S] by simp
  next
    case False
    with that have "arrays (dev W) k = Some T"
      by (simp add: W' acquire_arrays)
    from inv(3) [OF this] show ?thesis
      using False notin by (simp add: W' holders_upd)
  qed
  have 4: "fresh_handles (dev W')"
    using inv(4) by (auto simp: W' fresh_handles_def acquire_arrays acquire_fields)
  from 1 2 3 4 show ?thesis
    by (simp add: wf_world_def)
qed

lemma wf_world_dev_update:
  assumes "wf_world lf sz W"
    and "\<And>k. rel_option (\<lambda>S S'. same_surface (S\<lparr>s_mem := s_mem S'\<rparr>) S' \<and> s_refs S' = s_refs S)
           (arrays (dev W) k) (arrays dv k)"
    and "next_handle dv = next_handle (dev W)"
  shows "wf_world lf sz (W\<lparr>dev := dv\<rparr>)"
proof -
  note inv = wf_worldD [OF assms(1)]
  have 2: "wf_obj lf sz dv A" if "objs W a = Some A" for a A
  proof -
    from inv(2) [OF that] obtain S where S: "arrays (dev W) (surface A) = Some S"
      "s_width S = unat (width_m A)" "s_height S = unat (height_m A)"
      "s_depth S = unat (depth_m A)" "s_esize S = unat sz" "s_layered S = IS_LAYERED lf"
      "0 < s_refs S" "0 < unat sz" "unat sz * s_count S < 2 ^ 64"
      by (rule wf_objD)
    from assms(2) [of "surface A"] S(1) obtain S' where S': "arrays dv (surface A) = Some S'"
      "same_surface (S\<lparr>s_mem := s_mem S'\<rparr>) S'" "s_refs S' = s_refs S"
      by (auto simp: option_rel_Some1)
    from same_surface_fields [OF S'(2)] S S'(1,3) show ?thesis
      by (simp add: wf_obj_def s_count_def)
  qed
  have 3: "s_refs T = card (holders W k)" if "arrays dv k = Some T" for k T
  proof -
    from assms(2) [of k] that obtain S where "arrays (dev W) k = Some S" "s_refs T = s_refs S"
      by (auto simp: option_rel_Some2)
    with inv(3) show ?thesis by simp
  qed
  have 4: "fresh_handles dv"
    unfolding fresh_handles_def
  proof (intro allI impI)
    fix k assume "next_handle dv \<le> k"
    with inv(4) assms(3) have "arrays (dev W) k = None"
      by (simp add: fresh_handles_def)
    with assms(2) [of k] show "arrays dv k = None"
      by (cases "arrays dv k") simp_all
  qed
  from inv(1) 2 3 4 show ?thesis
    by (simp add: wf_world_def holders_dev)
qed


lemma holders_upd_objs:
  "holders (W\<lparr>objs := (objs W)(this \<mapsto> B)\<rparr>) h =
     (if surface B = h then insert this (holders W h) else holders W h - {this})"
  by (auto simp: holders_def)

lemma wf_world_set_boundary_mode:
  assumes "wf_world lf sz W" and "set_boundary_mode this m W = Inr W'"
  shows "wf_world lf sz W'"
proof -
  note inv = wf_worldD [OF assms(1)]
  from assms(2) obtain A where A: "objs W this = Some A"
    and W': "W' = W\<lparr>objs := (objs W)(this \<mapsto> A\<lparr>boundary_mode_m := m\<rparr>)\<rparr>"
    by (auto simp: set_boundary_mode_def split: option.splits)
  have h: "holders W' k = holders W k" for k
    using A by (auto simp: W' holders_def)
  have 1: "finite (dom (objs W'))"
    using inv(1) by (simp add: W')
  have 2: "wf_obj lf sz (dev W') B" if "objs W' a = Some B" for a B
  proof (cases "a = this")
    case True
    with that have "B = A\<lparr>boundary_mode_m := m\<rparr>" by (simp add: W')
    with inv(2) [OF A] show ?thesis by (simp add: W' wf_obj_def cong: option.case_cong)
  next
    case False
    with that inv(2) show ?thesis by (simp add: W')
  qed
  from 1 2 inv(3,4) show ?thesis
    by (simp add: wf_world_def h) (simp add: W')
qed

lemma wf_world_operator_assign:
  assumes "wf_world lf sz W" and "operator_assign this other W = Inr W'"
  shows "wf_world lf sz W'"
proof (cases "this = other")
  case True
  with assms show ?thesis by (simp add: operator_assign_def)
next
  case False
  note inv = wf_worldD [OF assms(1)]
  from assms(2) False obtain A B where A: "objs W this = Some A" and B: "objs W other = Some B"
    by (auto simp: operator_assign_def split: option.splits)
  have "(Base_assign B A)\<lparr>surface := surface B, boundary_mode_m := boundary_mode_m B\<rparr> = B"
    by (simp add: Base_assign_def)
  with assms(2) False A B
  have W': "W' = W\<lparr>objs := (objs W)(this \<mapsto> B),
                   dev := handle_assign (surface A) (surface B) (dev W)\<rparr>"
    by (simp add: operator_assign_def)
  let ?hA = "surface A" and ?hB = "surface B"
  let ?dv = "handle_assign ?hA ?hB (dev W)"
  from inv(2) [OF A] obtain SA where SA: "arrays (dev W) ?hA = Some SA"
    by (rule wf_objD)
  from inv(2) [OF B] obtain SB where SB: "arrays (dev W) ?hB = Some SB"
    by (rule wf_objD)
  have fin: "finite (holders W k)" for k
    by (rule holders_finite [OF inv(1)])
  have thisA: "this \<in> holders W ?hA" and otherB: "other \<in> holders W ?hB"
    using A B by (auto simp: holders_def)
  have rA: "s_refs SA = card (holders W ?hA)" and rB: "s_refs SB = card (holders W ?hB)"
    using inv(3) SA SB by simp_all
  have posA: "0 < s_refs SA"
    using rA thisA fin [of ?hA] by (auto simp: card_gt_0_iff)
  have 1: "finite (dom (objs W'))"
    using inv(1) by (simp add: W')
  show ?thesis
  proof (cases "?hA = ?hB")
    case True
    have "2 \<le> card (holders W ?hA)"
    proof -
      have "{this, other} \<subseteq> holders W ?hA"
        using thisA otherB True by simp
      then have "card {this, other} \<le> card (holders W ?hA)"
        by (intro card_mono fin)
      with False show ?thesis by simp
    qed
    with rA have "\<not> Suc (s_refs SA) \<le> 1" by simp
    then have dv: "arrays ?dv = arrays (dev W)"
      using True SA
      by (auto simp: handle_assign_def release_def acquire_def fun_eq_iff)
    have nh: "next_handle ?dv = next_handle (dev W)"
      by (simp add: handle_assign_def release_next_handle acquire_fields)
    have h: "holders W' k = holders W k" for k
      using True thisA A by (auto simp: W' holders_def)
    have 2: "wf_obj lf sz (dev W') C" if "objs W' a = Some C" for a C
    proof -
      from that have "objs W a = Some C \<or> C = B"
        by (auto simp: W' split: if_splits)
      with inv(2) B have "wf_obj lf sz (dev W) C" by blast
      then show ?thesis by (rule wf_obj_arrays_eq) (simp add: W' dv)
    qed
    have 3: "s_refs T = card (holders W' k)" if "arrays (dev W') k = Some T" for k T
      using that inv(3) by (simp add: h) (simp add: W' dv)
    have 4: "fresh_handles (dev W')"
      using inv(4) by (simp add: fresh_handles_def W' dv nh)
    from 1 2 3 4 show ?thesis by (simp add: wf_world_def)
  next
    case False
    note neq = this
    have hB: "holders W' ?hB = insert this (holders W ?hB)"
      by (simp add: W' holders_upd)
    have hA: "holders W' ?hA = holders W ?hA - {this}"
      using neq by (simp add: W' holders_upd)
    have hk: "holders W' k = holders W k" if "k \<noteq> ?hA" "k \<noteq> ?hB" for k
    proof -
      have "this \<notin> holders W k"
        using A that(1) by (auto simp: holders_def)
      then show ?thesis using that(2) by (simp add: W' holders_upd)
    qed
    have notB: "this \<notin> holders W ?hB"
      using A neq by (auto simp: holders_def)
    have aB: "arrays ?dv ?hB = Some (SB\<lparr>s_refs := Suc (s_refs SB)\<rparr>)"
      using neq SB by (simp add: handle_assign_def release_arrays_other acquire_arrays)
    have aA: "arrays ?dv ?hA =
        (if s_refs SA \<le> 1 then None else Some (SA\<lparr>s_refs := s_refs SA - 1\<rparr>))"
      using neq SA by (simp add: handle_assign_def release_arrays_same acquire_arrays)
    have ak: "arrays ?dv k = arrays (dev W) k" if "k \<noteq> ?hA" "k \<noteq> ?hB" for k
      using that by (simp add: handle_assign_def release_arrays_other acquire_arrays)
    have 3: "s_refs T = card (holders W' k)" if "arrays (dev W') k = Some T" for k T
    proof -
      consider "k = ?hB" | "k = ?hA" | "k \<noteq> ?hA" "k \<noteq> ?hB" by blast
      then show ?thesis
      proof cases
        case 1
        with that aB have "T = SB\<lparr>s_refs := Suc (s_refs SB)\<rparr>" by (simp add: W')
        then show ?thesis
          using 1 hB notB fin [of ?hB] rB by simp
      next
        case 2
        with that aA have "T = SA\<lparr>s_refs := s_refs SA - 1\<rparr>"
          by (simp add: W' split: if_splits)
        then show ?thesis
          using 2 hA thisA fin [of ?hA] rA by simp
      next
        case 3
        with that ak [OF 3] inv(3) hk [OF 3] show ?thesis by (simp add: W')
      qed
    qed
    have 2: "wf_obj lf sz (dev W') C" if C: "objs W' a = Some C" for a C
    proof -
      from C have old: "objs W a = Some C \<or> C = B" and ref: "a \<in> holders W' (surface C)"
        by (auto simp: W' holders_def split: if_splits)
      from old inv(2) B have wf: "wf_obj lf sz (dev W) C" by blast
      then obtain SC where SC: "arrays (dev W) (surface C) = Some SC"
        by (rule wf_objD)
      consider "surface C = ?hB" | "surface C = ?hA" | "surface C \<noteq> ?hA" "surface C \<noteq> ?hB"
        by blast
      then show ?thesis
      proof cases
        case 1
        show ?thesis
          using wf
        proof (rule wf_obj_same_surface)
          show "arrays (dev W) (surface C) = Some SB" using 1 SB by simp
          show "arrays (dev W') (surface C) = Some (SB\<lparr>s_refs := Suc (s_refs SB)\<rparr>)"
            using 1 aB by (simp add: W')
          show "same_surface SB (SB\<lparr>s_refs := Suc (s_refs SB)\<rparr>)"
            by (rule same_surface_refs)
        qed simp
      next
        case 2
        from ref 2 hA have "a \<in> holders W ?hA" "a \<noteq> this"
          by auto
        with thisA have "{this, a} \<subseteq> holders W ?hA" "card {this, a} = 2"
          by auto
        then have "2 \<le> card (holders W ?hA)"
          using card_mono [OF fin [of ?hA], of "{this, a}"] by simp
        with rA have big: "\<not> s_refs SA \<le> 1" by simp
        show ?thesis
          using wf
        proof (rule wf_obj_same_surface)
          show "arrays (dev W) (surface C) = Some SA" using 2 SA by simp
          show "arrays (dev W') (surface C) = Some (SA\<lparr>s_refs := s_refs SA - 1\<rparr>)"
            using 2 aA big by (simp add: W')
          show "same_surface SA (SA\<lparr>s_refs := s_refs SA - 1\<rparr>)"
            by (rule same_surface_refs)
          show "0 < s_refs (SA\<lparr>s_refs := s_refs SA - 1\<rparr>)"
            using big by simp
        qed
      next
        case 3
        show ?thesis
          using wf by (rule wf_obj_arrays_eq) (simp add: W' ak [OF 3])
      qed
    qed
    have 4: "fresh_handles (dev W')"
      unfolding fresh_handles_def
    proof (intro allI impI)
      fix k assume "next_handle (dev W') \<le> k"
      then have "next_handle (dev W) \<le> k"
        by (simp add: W' handle_assign_def release_next_handle acquire_fields)
      with inv(4) have n: "arrays (dev W) k = None" by (simp add: fresh_handles_def)
      with SA SB have "k \<noteq> ?hA" "k \<noteq> ?hB" by auto
      from ak [OF this] n show "arrays (dev W') k = None" by (simp add: W')
    qed
    from 1 2 3 4 show ?thesis by (simp add: wf_world_def)
  qed
qed


lemma same_surface_mem: "same_surface (S\<lparr>s_mem := f\<rparr>) (S\<lparr>s_mem := f\<rparr>)"
  by (rule same_surface_refl)

lemma wf_world_mem_update:
  assumes "wf_world lf sz W" "arrays (dev W) k = Some S"
  shows "wf_world lf sz (W\<lparr>dev := (dev W)\<lparr>arrays := (arrays (dev W))(k \<mapsto> S\<lparr>s_mem := f\<rparr>)\<rparr>\<rparr>)"
  using assms(1)
proof (rule wf_world_dev_update)
  fix j
  show "rel_option (\<lambda>S S'. same_surface (S\<lparr>s_mem := s_mem S'\<rparr>) S' \<and> s_refs S' = s_refs S)
      (arrays (dev W) j) (arrays ((dev W)\<lparr>arrays := (arrays (dev W))(k \<mapsto> S\<lparr>s_mem := f\<rparr>)\<rparr>) j)"
    using assms(2)
    by (cases "arrays (dev W) j") (auto simp: same_surface_def)
qed simp

lemma wf_world_operator_assign_host:
  assumes "wf_world lf sz W" and "operator_assign_host sz this buf W = Inr W'"
  shows "wf_world lf sz W'"
proof -
  from assms(2) obtain A where A: "objs W this = Some A"
    by (auto simp: operator_assign_host_def split: option.splits)
  from wf_worldD(2) [OF assms(1) A] obtain S where S: "arrays (dev W) (surface A) = Some S"
    by (rule wf_objD)
  from assms(2) A S have "W' = W \<or>
      (\<exists>f. W' = W\<lparr>dev := (dev W)\<lparr>arrays := (arrays (dev W))(surface A \<mapsto> S\<lparr>s_mem := f\<rparr>)\<rparr>\<rparr>)"
    by (auto simp: operator_assign_host_def cudaMemcpyToArray_def Let_def
        split: if_splits sum.splits)
  then show ?thesis
    using assms(1) wf_world_mem_update [OF assms(1) S] by auto
qed

lemma wf_world_leaf_set:
  assumes "wf_world lf sz W" and "leaf_set lf sz A x y z v (dev W) = Inr dv"
  shows "wf_world lf sz (W\<lparr>dev := dv\<rparr>)"
proof -
  from assms(2) obtain S where S: "arrays (dev W) (surface A) = Some S"
    by (auto simp: leaf_set_eq surf_write_def split: option.splits)
  from assms(2) S have "dv = dev W \<or>
      (\<exists>f. dv = (dev W)\<lparr>arrays := (arrays (dev W))(surface A \<mapsto> S\<lparr>s_mem := f\<rparr>)\<rparr>)"
    by (auto simp: leaf_set_eq surf_write_def split: if_splits sum.splits option.splits)
  then show ?thesis
    using assms(1) wf_world_mem_update [OF assms(1) S] by auto
qed

lemma holders_remove:
  "holders (W\<lparr>objs := (objs W)(this := None), dev := dv\<rparr>) h = holders W h - {this}"
  by (auto simp: holders_def)

lemma wf_world_dtor:
  assumes "wf_world lf sz W" and "CudaSurface3DBase_dtor this W = Inr W'"
  shows "wf_world lf sz W'"
proof -
  note inv = wf_worldD [OF assms(1)]
  from assms(2) obtain A where A: "objs W this = Some A"
    and W': "W' = W\<lparr>objs := (objs W)(this := None), dev := release (surface A) (dev W)\<rparr>"
    by (auto simp: CudaSurface3DBase_dtor_def split: option.splits)
  let ?hA = "surface A"
  from inv(2) [OF A] obtain SA where SA: "arrays (dev W) ?hA = Some SA"
    by (rule wf_objD)
  have fin: "finite (holders W k)" for k
    by (rule holders_finite [OF inv(1)])
  have thisA: "this \<in> holders W ?hA"
    using A by (auto simp: holders_def)
  have rA: "s_refs SA = card (holders W ?hA)"
    using inv(3) SA by simp
  have hA: "holders W' ?hA = holders W ?hA - {this}"
    by (simp add: W' holders_remove)
  have hk: "holders W' k = holders W k" if "k \<noteq> ?hA" for k
  proof -
    have "this \<notin> holders W k"
      using A that by (auto simp: holders_def)
    then show ?thesis by (simp add: W' holders_remove)
  qed
  have aA: "arrays (dev W') ?hA =
      (if s_refs SA \<le> 1 then None else Some (SA\<lparr>s_refs := s_refs SA - 1\<rparr>))"
    using SA by (simp add: W' release_arrays_same)
  have ak: "arrays (dev W') k = arrays (dev W) k" if "k \<noteq> ?hA" for k
    using that by (simp add: W' release_arrays_other)
  have 1: "finite (dom (objs W'))"
    using inv(1) by (simp add: W')
  have 2: "wf_obj lf sz (dev W') C" if C: "objs W' a = Some C" for a C
  proof -
    from C have old: "objs W a = Some C" and ne: "a \<noteq> this"
      by (auto simp: W' split: if_splits)
    from inv(2) [OF old] have wf: "wf_obj lf sz (dev W) C" .
    show ?thesis
    proof (cases "surface C = ?hA")
      case True
      from old True have "a \<in> holders W ?hA"
        by (auto simp: holders_def)
      with thisA ne have "{this, a} \<subseteq> holders W ?hA" "card {this, a} = 2"
        by auto
      then have "2 \<le> card (holders W ?hA)"
        using card_mono [OF fin [of ?hA], of "{this, a}"] by simp
      with rA have big: "\<not> s_refs SA \<le> 1" by simp
      show ?thesis
        using wf
      proof (rule wf_obj_same_surface)
        show "arrays (dev W) (surface C) = Some SA" using True SA by simp
        show "arrays (dev W') (surface C) = Some (SA\<lparr>s_refs := s_refs SA - 1\<rparr>)"
          using True aA big by simp
        show "same_surface SA (SA\<lparr>s_refs := s_refs SA - 1\<rparr>)"
          by (rule same_surface_refs)
        show "0 < s_refs (SA\<lparr>s_refs := s_refs SA - 1\<rparr>)"
          using big by simp
      qed
    next
      case False
      show ?thesis
        using wf by (rule wf_obj_arrays_eq) (simp add: ak [OF False])
    qed
  qed
  have 3: "s_refs T = card (holders W' k)" if "arrays (dev W') k = Some T" for k T
  proof (cases "k = ?hA")
    case True
    with that aA have "T = SA\<lparr>s_refs := s_refs SA - 1\<rparr>"
      by (simp split: if_splits)
    then show ?thesis
      using True hA thisA fin [of ?hA] rA by simp
  next
    case False
    with that ak [OF False] inv(3) hk [OF False] show ?thesis by simp
  qed
  have 4: "fresh_handles (dev W')"
    unfolding fresh_handles_def
  proof (intro allI impI)
    fix k assume "next_handle (dev W') \<le> k"
    then have "next_handle (dev W) \<le> k"
      by (simp add: W' release_next_handle)
    with inv(4) have n: "arrays (dev W) k = None" by (simp add: fresh_handles_def)
    with SA have "k \<noteq> ?hA" by auto
    from ak [OF this] n show "arrays (dev W') k = None" by simp
  qed
  from 1 2 3 4 show ?thesis by (simp add: wf_world_def)
qed

text \<open>The last reference releases the allocation; an earlier one does not.\<close>

lemma dtor_releases_at_last_reference:
  assumes "wf_world lf sz W" "objs W this = Some A"
  shows "\<exists>W'. CudaSurface3DBase_dtor this W = Inr W' \<and> objs W' this = None \<and>
     (arrays (dev W') (surface A) = None \<longleftrightarrow> holders W (surface A) = {this})"
proof -
  note inv = wf_worldD [OF assms(1)]
  from inv(2) [OF assms(2)] obtain SA where SA: "arrays (dev W) (surface A) = Some SA"
    by (rule wf_objD)
  have fin: "finite (holders W (surface A))"
    by (rule holders_finite [OF inv(1)])
  have thisA: "this \<in> holders W (surface A)"
    using assms(2) by (auto simp: holders_def)
  have rA: "s_refs SA = card (holders W (surface A))"
    using inv(3) SA by simp
  have "s_refs SA \<le> 1 \<longleftrightarrow> holders W (surface A) = {this}"
  proof
    assume "s_refs SA \<le> 1"
    moreover have "0 < card (holders W (surface A))"
      using thisA fin by (auto simp: card_gt_0_iff)
    ultimately have "card (holders W (surface A)) = 1"
      using rA by simp
    then obtain c where "holders W (surface A) = {c}"
      by (auto simp: card_1_singleton_iff)
    with thisA show "holders W (surface A) = {this}" by auto
  next
    assume "holders W (surface A) = {this}"
    with rA show "s_refs SA \<le> 1" by simp
  qed
  then show ?thesis
    using assms(2) SA by (simp add: CudaSurface3DBase_dtor_def release_arrays_same)
qed

lemma wf_world_start:
  assumes "objs W = Map.empty" "arrays (dev W) = Map.empty"
  shows "wf_world lf sz W"
  using assms by (simp add: wf_world_def fresh_handles_def)

lemma reachable_wf_world:
  assumes "reachable lf sz grid W" and "0 < unat sz"
  shows "wf_world lf sz W"
  using assms
proof (induction rule: reachable.induct)
  case (start W)
  then show ?case by (simp add: wf_world_start)
next
  case (construct W this w h d b s m W')
  then show ?case by (auto intro: wf_world_ctor)
next
  case (copy W this other W')
  then show ?case by (auto intro: wf_world_copy_ctor)
next
  case (assign W this other W')
  then show ?case by (auto intro: wf_world_operator_assign)
next
  case (assign_host W this buf W')
  then show ?case by (auto intro: wf_world_operator_assign_host)
next
  case (set_mode W this m W')
  then show ?case by (auto intro: wf_world_set_boundary_mode)
next
  case (destroy W this W')
  then show ?case by (auto intro: wf_world_dtor)
next
  case (kernel_set W a A m x y z v dv)
  then show ?case by (auto intro: wf_world_leaf_set)
qed

lemma reachable_wf_obj:
  assumes "reachable lf sz grid W" "0 < unat sz" "objs W a = Some A"
  shows "wf_obj lf sz (dev W) A"
  using wf_worldD(2) [OF reachable_wf_world [OF assms(1,2)] assms(3)] .

text \<open>The world of the witnesses below is reachable.\<close>

lemma ex_world3_reachable: "reachable CudaSurface3D 4 ex_grid ex_world3"
proof -
  have 0: "reachable CudaSurface3D 4 ex_grid ex_world0"
    by (rule reachable.start) (simp_all add: ex_world0_def ex_dev0_def)
  have 1: "reachable CudaSurface3D 4 ex_grid ex_world1"
    using 0 _ ex_world1_constructed by (rule reachable.construct) (simp add: ex_world0_def)
  from ex_world3_reached obtain W where W:
    "CudaSurface3DBase_ctor CudaSurface3D 4 ex_grid 3 4 3 2 ex_block 0 cudaBoundaryModeZero
       ex_world1 = Inr W"
    "operator_assign_host 4 1 (map (\<lambda>i. int i + 1) [0..<24]) W = Inr ex_world3"
    by blast
  have "reachable CudaSurface3D 4 ex_grid W"
    using 1 _ W(1) by (rule reachable.construct) (simp add: ex_world1_def)
  then show ?thesis
    using W(2) by (rule reachable.assign_host)
qed

section \<open>Properties\<close>

text \<open>
  The properties below are stated for well-formed instances. Every instance of a
  reachable world is well formed (\<open>reachable_wf_obj\<close>): the constructor establishes the
  property and every operation of the class keeps it.
\<close>


text \<open>
  C10. Self-assignment \<open>a = a\<close> is a no-op: the guard returns at once, so every field of
  the instance, every other object, and the device with its reference counts are
  exactly as before; no handle is released or acquired.
\<close>

theorem self_assignment_noop: "operator_assign a a W = Inr W"
  by (simp add: operator_assign_def)


text \<open>
  C8. \<^verbatim>\<open>set_boundary_mode(m)\<close> changes the boundary-mode field of its instance and
  nothing else: \<^verbatim>\<open>get_boundary_mode()\<close> then returns \<open>m\<close>, every other field of the
  instance is as before, every other instance is as before (also one that shares the
  surface handle, so that two instances on one allocation hold their modes
  independently), and the device is untouched.
\<close>

theorem set_boundary_mode_frame:
  assumes "objs W a = Some A"
  shows "\<exists>W'. set_boundary_mode a m W = Inr W' \<and> get_boundary_mode a W' = Inr m \<and>
           objs W' a = Some (A\<lparr>boundary_mode_m := m\<rparr>) \<and>
           (\<forall>b. b \<noteq> a \<longrightarrow> objs W' b = objs W b) \<and> dev W' = dev W"
  using assms by (simp add: set_boundary_mode_def get_boundary_mode_def)

text \<open>
  Witness for C8: two instances that share one allocation; the first changes its mode to
  clamp, the second keeps zero.
\<close>

theorem set_boundary_mode_frame_witness:
  "objs ex_world2 1 = Some (ex_obj 0) \<and>
   (\<exists>W'. set_boundary_mode 1 cudaBoundaryModeClamp ex_world2 = Inr W' \<and>
      get_boundary_mode 1 W' = Inr cudaBoundaryModeClamp \<and>
      get_boundary_mode 2 W' = Inr cudaBoundaryModeZero \<and>
      objs W' 1 = Some ((ex_obj 0)\<lparr>boundary_mode_m := cudaBoundaryModeClamp\<rparr>) \<and>
      objs W' 2 = Some (ex_obj 0) \<and> dev W' = dev ex_world2)"
proof -
  have h: "objs ex_world2 1 = Some (ex_obj 0)"
    by (simp add: ex_world2_def)
  from set_boundary_mode_frame [OF h, of cudaBoundaryModeClamp]
  obtain W' where W': "set_boundary_mode 1 cudaBoundaryModeClamp ex_world2 = Inr W'"
    "get_boundary_mode 1 W' = Inr cudaBoundaryModeClamp"
    "objs W' 1 = Some ((ex_obj 0)\<lparr>boundary_mode_m := cudaBoundaryModeClamp\<rparr>)"
    "\<forall>b. b \<noteq> 1 \<longrightarrow> objs W' b = objs ex_world2 b" "dev W' = dev ex_world2"
    by blast
  from W'(4) have "objs W' 2 = Some (ex_obj 0)"
    by (simp add: ex_world2_def)
  then have "get_boundary_mode 2 W' = Inr cudaBoundaryModeZero"
    by (simp add: get_boundary_mode_def ex_obj_def)
  with h W' \<open>objs W' 2 = Some (ex_obj 0)\<close> show ?thesis by blast
qed

text \<open>
  C9. For all extents, launch shape, stream and boundary mode: an error of the surface
  allocation leaves the constructor as it is, neither caught nor translated nor
  retried, and the allocation fails when the device lacks the memory; whenever the
  allocation succeeds, as it does when the device has the memory, the constructor
  returns, with the handle and the device that the allocation gave; when the
  constructor returns, the new instance holds the given extents, block, stream and
  mode, and its handle references an allocation of exactly the given extents, with one
  reference, under a handle that was not in use, while all other allocations and
  objects are as before.
\<close>

theorem constructor_allocates_or_propagates:
  "(\<forall>e. CudaSharedSurfaceObject_ctor sizeof_T w h d (IS_LAYERED lf) (dev W) = Inl e \<longrightarrow>
        CudaSurface3DBase_ctor lf sizeof_T grid this w h d b s m W = Inl e) \<and>
   (unat (free_mem (dev W)) < unat sizeof_T * (unat w * unat h * unat d) \<longrightarrow>
        CudaSurface3DBase_ctor lf sizeof_T grid this w h d b s m W = Inl cudaErrorMemoryAllocation) \<and>
   (\<forall>hd dev'. CudaSharedSurfaceObject_ctor sizeof_T w h d (IS_LAYERED lf) (dev W) = Inr (hd, dev') \<longrightarrow>
        (\<exists>W' A. CudaSurface3DBase_ctor lf sizeof_T grid this w h d b s m W = Inr W' \<and>
           dev W' = dev' \<and> objs W' this = Some A \<and> surface A = hd)) \<and>
   (unat sizeof_T * (unat w * unat h * unat d) \<le> unat (free_mem (dev W)) \<longrightarrow>
        (\<exists>W'. CudaSurface3DBase_ctor lf sizeof_T grid this w h d b s m W = Inr W')) \<and>
   (\<forall>W'. CudaSurface3DBase_ctor lf sizeof_T grid this w h d b s m W = Inr W' \<longrightarrow>
      (\<exists>A S. objs W' this = Some A \<and>
         width_m A = w \<and> height_m A = h \<and> depth_m A = d \<and> block_dim_m A = b \<and>
         stream_m A = s \<and> boundary_mode_m A = m \<and>
         surface A = next_handle (dev W) \<and> arrays (dev W') (surface A) = Some S \<and>
         s_width S = unat w \<and> s_height S = unat h \<and> s_depth S = unat d \<and>
         s_layered S = IS_LAYERED lf \<and> s_esize S = unat sizeof_T \<and> s_refs S = 1 \<and>
         grid_dim_m A = grid w h d b \<and>
         (0 < unat sizeof_T \<longrightarrow> wf_obj lf sizeof_T (dev W') A) \<and>
         (fresh_handles (dev W) \<longrightarrow>
            arrays (dev W) (surface A) = None \<and> fresh_handles (dev W')) \<and>
         (\<forall>h'. h' \<noteq> surface A \<longrightarrow> arrays (dev W') h' = arrays (dev W) h') \<and>
         (\<forall>a. a \<noteq> this \<longrightarrow> objs W' a = objs W a)))"
proof (intro conjI allI impI)
  fix e
  assume "CudaSharedSurfaceObject_ctor sizeof_T w h d (IS_LAYERED lf) (dev W) = Inl e"
  then show "CudaSurface3DBase_ctor lf sizeof_T grid this w h d b s m W = Inl e"
    by (simp add: CudaSurface3DBase_ctor_def)
next
  assume "unat (free_mem (dev W)) < unat sizeof_T * (unat w * unat h * unat d)"
  then show "CudaSurface3DBase_ctor lf sizeof_T grid this w h d b s m W = Inl cudaErrorMemoryAllocation"
    by (simp add: CudaSurface3DBase_ctor_def CudaSharedSurfaceObject_ctor_def)
next
  fix hd dev'
  assume "CudaSharedSurfaceObject_ctor sizeof_T w h d (IS_LAYERED lf) (dev W) = Inr (hd, dev')"
  then show "\<exists>W' A. CudaSurface3DBase_ctor lf sizeof_T grid this w h d b s m W = Inr W' \<and>
      dev W' = dev' \<and> objs W' this = Some A \<and> surface A = hd"
    by (simp add: CudaSurface3DBase_ctor_def)
next
  assume "unat sizeof_T * (unat w * unat h * unat d) \<le> unat (free_mem (dev W))"
  then show "\<exists>W'. CudaSurface3DBase_ctor lf sizeof_T grid this w h d b s m W = Inr W'"
    by (simp add: CudaSurface3DBase_ctor_def CudaSharedSurfaceObject_ctor_def)
next
  fix W'
  assume ok: "CudaSurface3DBase_ctor lf sizeof_T grid this w h d b s m W = Inr W'"
  let ?n = "unat sizeof_T * (unat w * unat h * unat d)"
  from ok have fit: "?n \<le> unat (free_mem (dev W))"
    by (auto simp: CudaSurface3DBase_ctor_def CudaSharedSurfaceObject_ctor_def Let_def
        split: if_splits)
  have "?n < 2 ^ 64"
    using fit unsigned_less [of "free_mem (dev W)", where 'a = nat] by simp
  with ok fit show "\<exists>A S. objs W' this = Some A \<and>
         width_m A = w \<and> height_m A = h \<and> depth_m A = d \<and> block_dim_m A = b \<and>
         stream_m A = s \<and> boundary_mode_m A = m \<and>
         surface A = next_handle (dev W) \<and> arrays (dev W') (surface A) = Some S \<and>
         s_width S = unat w \<and> s_height S = unat h \<and> s_depth S = unat d \<and>
         s_layered S = IS_LAYERED lf \<and> s_esize S = unat sizeof_T \<and> s_refs S = 1 \<and>
         grid_dim_m A = grid w h d b \<and>
         (0 < unat sizeof_T \<longrightarrow> wf_obj lf sizeof_T (dev W') A) \<and>
         (fresh_handles (dev W) \<longrightarrow>
            arrays (dev W) (surface A) = None \<and> fresh_handles (dev W')) \<and>
         (\<forall>h'. h' \<noteq> surface A \<longrightarrow> arrays (dev W') h' = arrays (dev W) h') \<and>
         (\<forall>a. a \<noteq> this \<longrightarrow> objs W' a = objs W a)"
    by (auto simp: CudaSurface3DBase_ctor_def CudaSharedSurfaceObject_ctor_def Let_def
        Base_ctor_def raw_instance_def wf_obj_def s_count_def fresh_handles_def)
qed

text \<open>
  Witness for C9: on a device with 64 free bytes the constructor of a 4 x 3 x 2 array of
  4-byte elements fails with the error of the allocation; with 4096 free bytes it
  returns, and yields the array.
\<close>

theorem constructor_allocates_or_propagates_witness:
  "CudaSurface3DBase_ctor CudaSurface3D 4 ex_grid 1 4 3 2 ex_block 0 cudaBoundaryModeZero
     ex_world_full = Inl cudaErrorMemoryAllocation \<and>
   CudaSurface3DBase_ctor CudaSurface3D 4 ex_grid 1 4 3 2 ex_block 0 cudaBoundaryModeZero
     ex_world0 = Inr ex_world1 \<and>
   (\<exists>W'. CudaSurface3DBase_ctor CudaSurface3D 4 ex_grid 1 4 3 2 ex_block 0
      cudaBoundaryModeZero (ex_world0 :: int world) = Inr W') \<and>
   (\<exists>A S. objs ex_world1 1 = Some A \<and> width_m A = 4 \<and> height_m A = 3 \<and> depth_m A = 2 \<and>
      arrays (dev ex_world1) (surface A) = Some S \<and>
      s_width S = 4 \<and> s_height S = 3 \<and> s_depth S = 2 \<and> s_refs S = 1 \<and>
      wf_obj CudaSurface3D 4 (dev ex_world1) A \<and>
      arrays (dev ex_world0) (surface A) = None \<and> fresh_handles (dev ex_world1))"
proof -
  have fresh: "fresh_handles (dev ex_world0)"
    by (simp add: fresh_handles_def ex_world0_def ex_dev0_def)
  have full: "unat (free_mem (dev ex_world_full)) < unat (4 :: size_t) * (unat (4 :: size_t) *
      unat (3 :: size_t) * unat (2 :: size_t))"
    by (simp add: ex_world_full_def ex_world0_def ex_dev0_def)
  have ok: "CudaSurface3DBase_ctor CudaSurface3D 4 ex_grid 1 4 3 2 ex_block 0
      cudaBoundaryModeZero ex_world0 = Inr ex_world1"
    by (rule ex_world1_constructed)
  have pos: "0 < unat (4 :: size_t)"
    by simp
  have room: "unat (4 :: size_t) * (unat (4 :: size_t) * unat (3 :: size_t) *
      unat (2 :: size_t)) \<le> unat (free_mem (dev (ex_world0 :: int world)))"
    by (simp add: ex_world0_def ex_dev0_def)
  from room constructor_allocates_or_propagates
    [where sizeof_T = 4 and w = 4 and h = 3 and d = 2 and lf = CudaSurface3D
       and W = "ex_world0 :: int world" and grid = ex_grid and this = 1 and b = ex_block
       and s = 0 and m = cudaBoundaryModeZero]
  have 0: "\<exists>W'. CudaSurface3DBase_ctor CudaSurface3D 4 ex_grid 1 4 3 2 ex_block 0
      cudaBoundaryModeZero (ex_world0 :: int world) = Inr W'"
    by blast
  from full constructor_allocates_or_propagates
    [where sizeof_T = 4 and w = 4 and h = 3 and d = 2 and lf = CudaSurface3D
       and W = ex_world_full and grid = ex_grid and this = 1 and b = ex_block and s = 0
       and m = cudaBoundaryModeZero]
  have 1: "CudaSurface3DBase_ctor CudaSurface3D 4 ex_grid 1 4 3 2 ex_block 0
      cudaBoundaryModeZero ex_world_full = Inl cudaErrorMemoryAllocation"
    by blast
  from ok pos fresh constructor_allocates_or_propagates
    [where sizeof_T = 4 and w = 4 and h = 3 and d = 2 and lf = CudaSurface3D
       and W = ex_world0 and grid = ex_grid and this = 1 and b = ex_block and s = 0
       and m = cudaBoundaryModeZero]
  have 2: "\<exists>A S. objs ex_world1 1 = Some A \<and> width_m A = 4 \<and> height_m A = 3 \<and>
      depth_m A = 2 \<and> arrays (dev ex_world1) (surface A) = Some S \<and>
      s_width S = 4 \<and> s_height S = 3 \<and> s_depth S = 2 \<and> s_refs S = 1 \<and>
      wf_obj CudaSurface3D 4 (dev ex_world1) A \<and>
      arrays (dev ex_world0) (surface A) = None \<and> fresh_handles (dev ex_world1)"
    by (elim conjE allE [where x = ex_world1]) (simp, blast)
  from 1 ok 0 2 show ?thesis by blast
qed





text \<open>
  C2. After the assignment \<open>b = a\<close> both instances hold the handle of \<open>a\<close>: a value set
  through \<open>b\<close> at a coordinate inside the extents is the value that \<open>get\<close> returns
  through \<open>a\<close> at that coordinate, and the other way round; and after any \<open>set\<close>
  through either, every \<open>get\<close> through \<open>a\<close> returns what it returns through \<open>b\<close>.
\<close>

theorem assignment_shares_writes:
  assumes "objs W a = Some A" "objs W b = Some B" "wf_obj lf sz (dev W) A"
  shows "\<exists>W' B'. operator_assign b a W = Inr W' \<and> objs W' a = Some A \<and>
           objs W' b = Some B' \<and> surface B' = surface A \<and>
           (\<forall>x y z v. inside A x y z \<and> fits_int sz x \<longrightarrow>
              (\<exists>dv. leaf_set lf sz B' x y z v (dev W') = Inr dv \<and>
                    leaf_get lf sz A x y z dv = Inr v) \<and>
              (\<exists>dv. leaf_set lf sz A x y z v (dev W') = Inr dv \<and>
                    leaf_get lf sz B' x y z dv = Inr v)) \<and>
           (\<forall>x y z v dv x' y' z'.
              leaf_set lf sz B' x y z v (dev W') = Inr dv \<or>
              leaf_set lf sz A x y z v (dev W') = Inr dv \<longrightarrow>
              leaf_get lf sz A x' y' z' dv = leaf_get lf sz B' x' y' z' dv)"
proof -
  from assms obtain W' where W': "operator_assign b a W = Inr W'"
    "objs W' b = Some A" "objs W' a = Some A" "wf_obj lf sz (dev W') A"
    by (rule operator_assign_result)
  have "\<exists>dv. leaf_set lf sz A x y z v (dev W') = Inr dv \<and> leaf_get lf sz A x y z dv = Inr v"
    if "inside A x y z \<and> fits_int sz x" for x y z v
    using set_then_get [OF W'(4), of A x y z v] that by blast
  with W'(1-3) show ?thesis
    by (intro exI [of _ W'] exI [of _ A]) simp
qed


text \<open>
  Witness for C2: object 3 is assigned from object 1, then 42 is written at \<open>(1, 2, 1)\<close>
  through one and read through the other.
\<close>

theorem assignment_shares_writes_witness:
  "objs ex_world3 1 = Some (ex_obj 0) \<and> objs ex_world3 3 = Some (ex_obj 1) \<and>
   wf_obj CudaSurface3D 4 (dev ex_world3) (ex_obj 0) \<and>
   inside (ex_obj 0) 1 2 1 \<and> fits_int 4 1 \<and>
   (\<exists>W' B'. operator_assign 3 1 ex_world3 = Inr W' \<and> objs W' 1 = Some (ex_obj 0) \<and>
      objs W' 3 = Some B' \<and> surface B' = surface (ex_obj 0) \<and>
      (\<exists>dv. leaf_set CudaSurface3D 4 B' 1 2 1 42 (dev W') = Inr dv \<and>
            leaf_get CudaSurface3D 4 (ex_obj 0) 1 2 1 dv = Inr 42) \<and>
      (\<exists>dv. leaf_set CudaSurface3D 4 (ex_obj 0) 1 2 1 42 (dev W') = Inr dv \<and>
            leaf_get CudaSurface3D 4 B' 1 2 1 dv = Inr 42))"
proof -
  have i: "inside (ex_obj 0) 1 2 1 \<and> fits_int 4 1"
    by (simp add: inside_def fits_int_def ex_obj_def)
  from assignment_shares_writes [OF ex_world3_wf(1) ex_world3_wf(2) ex_world3_wf(3)] i
  have "\<exists>W' B'. operator_assign 3 1 ex_world3 = Inr W' \<and> objs W' 1 = Some (ex_obj 0) \<and>
      objs W' 3 = Some B' \<and> surface B' = surface (ex_obj 0) \<and>
      (\<exists>dv. leaf_set CudaSurface3D 4 B' 1 2 1 42 (dev W') = Inr dv \<and>
            leaf_get CudaSurface3D 4 (ex_obj 0) 1 2 1 dv = Inr 42) \<and>
      (\<exists>dv. leaf_set CudaSurface3D 4 (ex_obj 0) 1 2 1 42 (dev W') = Inr dv \<and>
            leaf_get CudaSurface3D 4 B' 1 2 1 dv = Inr 42)"
    by blast
  with ex_world3_wf(1-3) i show ?thesis by blast
qed


text \<open>
  C1 says that \<^verbatim>\<open>emptyCopy()\<close> returns a new instance with the width, height and depth
  of its instance. The call in its body passes \<^verbatim>\<open>width_\<close>, \<^verbatim>\<open>height_\<close>,
  \<^verbatim>\<open>block_dim_\<close>, \<^verbatim>\<open>stream_\<close> and \<^verbatim>\<open>boundary_mode_\<close>: the depth is missing, every
  later argument meets the parameter before its own, and the call is rejected. Here on
  the 4 x 3 x 2 array at address 1.
\<close>

theorem emptyCopy_does_not_pass_depth:
  "emptyCopy CudaSurface3D 4 ex_grid ex_block 2 1 ex_world1 = Inl NoMatchingConstructor"
  by (simp add: emptyCopy_def ctor_bound_def ex_world1_def)


text \<open>
  C4. On every well-formed instance both transfers request
  \<^verbatim>\<open>sizeof(Scalar) * width * height * depth\<close> bytes, that is \<open>width * height * depth\<close> elements,
  whatever the host buffer: assignment from a host array replaces exactly the elements
  of the array by the first that many elements of the buffer, \<^verbatim>\<open>copyTo\<close> overwrites
  exactly the first that many elements of the buffer and keeps the rest, and a buffer
  that is shorter is overrun, since the wrapper neither receives nor checks a size.
\<close>

theorem transfers_move_whole_array:
  assumes "objs W a = Some A" and "wf_obj lf sz (dev W) A"
  shows "unat (transfer_bytes sz A) = unat sz * elems A \<and>
    (\<exists>S. arrays (dev W) (surface A) = Some S \<and>
       (\<forall>buf. operator_assign_host sz a buf W =
          (if length buf < elems A then Inl HostBufferOverrun
           else Inr (W\<lparr>dev := (dev W)\<lparr>arrays := (arrays (dev W))(surface A \<mapsto>
                  S\<lparr>s_mem := (\<lambda>i. if i < elems A then buf ! i else s_mem S i)\<rparr>)\<rparr>\<rparr>))) \<and>
       (\<forall>buf. copyTo sz a buf W =
          (if length buf < elems A then Inl HostBufferOverrun
           else Inr (map (s_mem S) [0..<elems A] @ drop (elems A) buf))))"
proof -
  from assms(2) obtain S where S: "arrays (dev W) (surface A) = Some S"
    by (rule wf_objD)
  show ?thesis
    using S wf_obj_transfer(4) [OF assms(2) S] operator_assign_host_result [OF assms S]
      copyTo_result [OF assms S]
    by simp
qed


text \<open>
  Witness for C4: the 4 x 3 x 2 array of 4-byte elements moves 96 bytes, 24 elements; a
  buffer of 23 elements is overrun, of a buffer of 30 elements the last 6 are kept.
\<close>

theorem transfers_move_whole_array_witness:
  "objs ex_world3 1 = Some (ex_obj 0) \<and> wf_obj CudaSurface3D 4 (dev ex_world3) (ex_obj 0) \<and>
   elems (ex_obj 0) = 24 \<and> unat (transfer_bytes 4 (ex_obj 0)) = 96 \<and>
   operator_assign_host 4 1 (replicate 23 5) ex_world3 = Inl HostBufferOverrun \<and>
   copyTo 4 1 (replicate 23 5) ex_world3 = Inl HostBufferOverrun \<and>
   copyTo 4 1 (replicate 30 9) ex_world3 =
     Inr (map (\<lambda>i. int i + 1) [0..<24] @ replicate 6 9)"
proof -
  have e: "elems (ex_obj 0) = 24"
    by (simp add: elems_def ex_obj_def)
  from transfers_move_whole_array [OF ex_world3_wf(1) ex_world3_wf(3)]
  obtain S where S: "unat (transfer_bytes 4 (ex_obj 0)) = unat (4 :: size_t) * elems (ex_obj 0)"
    "arrays (dev ex_world3) (surface (ex_obj 0)) = Some S"
    "\<And>buf. operator_assign_host 4 1 buf ex_world3 =
       (if length buf < elems (ex_obj 0) then Inl HostBufferOverrun
        else Inr (ex_world3\<lparr>dev := (dev ex_world3)\<lparr>arrays :=
               (arrays (dev ex_world3))(surface (ex_obj 0) \<mapsto>
                 S\<lparr>s_mem := (\<lambda>i. if i < elems (ex_obj 0) then buf ! i else s_mem S i)\<rparr>)\<rparr>\<rparr>))"
    "\<And>buf. copyTo 4 1 buf ex_world3 =
       (if length buf < elems (ex_obj 0) then Inl HostBufferOverrun
        else Inr (map (s_mem S) [0..<elems (ex_obj 0)] @ drop (elems (ex_obj 0)) buf))"
    by blast
  from S(2) have "S = ex_surf ex_mem 1"
    by (simp add: ex_world3_def ex_obj_def)
  then have m: "map (s_mem S) [0..<24] = map (\<lambda>i. int i + 1) [0..<24]"
    by (simp add: ex_surf_def ex_mem_def)
  have 1: "unat (transfer_bytes 4 (ex_obj 0)) = 96"
    using S(1) e by simp
  have 2: "operator_assign_host 4 1 (replicate 23 5) ex_world3 = Inl HostBufferOverrun"
    using S(3) [of "replicate 23 5"] e by simp
  have 3: "copyTo 4 1 (replicate 23 5) ex_world3 = Inl HostBufferOverrun"
    using S(4) [of "replicate 23 5"] e by simp
  have 4: "copyTo 4 1 (replicate 30 9) ex_world3 =
      Inr (map (\<lambda>i. int i + 1) [0..<24] @ replicate 6 9)"
    using S(4) [of "replicate 30 9"] e m by simp
  from ex_world3_wf(1,3) e 1 2 3 4 show ?thesis by blast
qed



text \<open>
  C3. For well-formed instances \<open>a\<close> and \<open>b\<close> of the same extents and a host buffer of
  exactly \<open>width * height * depth\<close> elements: \<^verbatim>\<open>a.copyTo(hostBuf)\<close> followed by
  \<^verbatim>\<open>b = hostBuf\<close> succeeds and leaves in the allocation of \<open>b\<close> the elements of \<open>a\<close>,
  element for element; \<open>get\<close> through \<open>b\<close> at a coordinate inside the extents returns
  what \<open>get\<close> through \<open>a\<close> returned.
\<close>

theorem host_round_trip:
  assumes "objs W a = Some A" and "objs W b = Some B"
    and "wf_obj lf sz (dev W) A" and "wf_obj lf' sz (dev W) B"
    and "width_m B = width_m A" "height_m B = height_m A" "depth_m B = depth_m A"
    and "length hostBuf = elems A"
  shows "\<exists>buf W' SA SB'. copyTo sz a hostBuf W = Inr buf \<and>
      operator_assign_host sz b buf W = Inr W' \<and>
      arrays (dev W) (surface A) = Some SA \<and> arrays (dev W') (surface B) = Some SB' \<and>
      (\<forall>i. i < elems A \<longrightarrow> s_mem SB' i = s_mem SA i) \<and>
      wf_obj lf' sz (dev W') B \<and>
      (\<forall>x y z. inside A x y z \<and> fits_int sz x \<longrightarrow>
         leaf_get lf' sz B x y z (dev W') = leaf_get lf sz A x y z (dev W))"
proof -
  from assms(3) obtain SA where SA: "arrays (dev W) (surface A) = Some SA"
    "s_width SA = unat (width_m A)" "s_height SA = unat (height_m A)"
    "s_depth SA = unat (depth_m A)" "s_esize SA = unat sz" "s_layered SA = IS_LAYERED lf"
    "0 < s_refs SA" "0 < unat sz" "unat sz * s_count SA < 2 ^ 64"
    by (rule wf_objD)
  from assms(4) obtain SB where SB: "arrays (dev W) (surface B) = Some SB"
    "s_width SB = unat (width_m B)" "s_height SB = unat (height_m B)"
    "s_depth SB = unat (depth_m B)" "s_esize SB = unat sz" "s_layered SB = IS_LAYERED lf'"
    "0 < s_refs SB" "0 < unat sz" "unat sz * s_count SB < 2 ^ 64"
    by (rule wf_objD)
  have eB: "elems B = elems A"
    using assms(5-7) by (simp add: elems_def)
  let ?buf = "map (s_mem SA) [0..<elems A] @ drop (elems A) hostBuf"
  let ?SB' = "SB\<lparr>s_mem := (\<lambda>i. if i < elems A then ?buf ! i else s_mem SB i)\<rparr>"
  let ?W' = "W\<lparr>dev := (dev W)\<lparr>arrays := (arrays (dev W))(surface B \<mapsto> ?SB')\<rparr>\<rparr>"
  have c: "copyTo sz a hostBuf W = Inr ?buf"
    using copyTo_result [OF assms(1,3) SA(1), of hostBuf] assms(8) by simp
  have len: "length ?buf = elems A"
    using assms(8) by simp
  have h: "operator_assign_host sz b ?buf W = Inr ?W'"
    using operator_assign_host_result [OF assms(2,4) SB(1), of ?buf] len eB by simp
  have aB: "arrays (dev ?W') (surface B) = Some ?SB'"
    by simp
  have mem: "s_mem ?SB' i = s_mem SA i" if "i < elems A" for i
    using that by (simp add: nth_append)
  have wfB: "wf_obj lf' sz (dev ?W') B"
    using SB by (simp add: wf_obj_def s_count_def)
  have get: "leaf_get lf' sz B x y z (dev ?W') = leaf_get lf sz A x y z (dev W)"
    if io: "inside A x y z \<and> fits_int sz x" for x y z
  proof -
    have iB: "inside B x y z"
      using io assms(5-7) by (simp add: inside_def)
    have idx: "elem_index B x y z = elem_index A x y z"
      using assms(5-7) by (simp add: elem_index_def)
    have lt: "elem_index A x y z < elems A"
      using io by (intro elem_index_bound) simp
    have lA: "surf_locate SA m (sint (byte_offset sz x)) (sint y) (sint z)
        = Inr (Some (elem_index A x y z))" for m
      using SA(2-5,8) io by (intro locate_inside) simp_all
    have lB: "surf_locate ?SB' m (sint (byte_offset sz x)) (sint y) (sint z)
        = Inr (Some (elem_index B x y z))" for m
      using SB(2-5,8) iB io by (intro locate_inside) simp_all
    show ?thesis
      using SA(1,6) SB(6) lA lB idx mem [OF lt]
      by (simp add: leaf_get_eq surf_read_def)
  qed
  from c h SA(1) aB mem wfB get show ?thesis
    by blast
qed



text \<open>
  Witness for C3: object 1 holds \<open>i + 1\<close> at index \<open>i\<close>, object 3 holds zeros; after the
  round trip object 3 reads 22 at \<open>(1, 2, 1)\<close>, as object 1 does.
\<close>

theorem host_round_trip_witness:
  "objs ex_world3 1 = Some (ex_obj 0) \<and> objs ex_world3 3 = Some (ex_obj 1) \<and>
   wf_obj CudaSurface3D 4 (dev ex_world3) (ex_obj 0) \<and>
   wf_obj CudaSurface3D 4 (dev ex_world3) (ex_obj 1) \<and>
   length (replicate 24 (0 :: int)) = elems (ex_obj 0) \<and>
   leaf_get CudaSurface3D 4 (ex_obj 0) 1 2 1 (dev ex_world3) = Inr (22 :: int) \<and>
   leaf_get CudaSurface3D 4 (ex_obj 1) 1 2 1 (dev ex_world3) = Inr (0 :: int) \<and>
   (\<exists>buf W'. copyTo 4 1 (replicate 24 0) ex_world3 = Inr buf \<and>
      operator_assign_host 4 3 buf ex_world3 = Inr W' \<and>
      leaf_get CudaSurface3D 4 (ex_obj 1) 1 2 1 (dev W') = Inr 22)"
proof -
  have e: "length (replicate 24 (0 :: int)) = elems (ex_obj 0)"
    by (simp add: elems_def ex_obj_def)
  have x: "width_m (ex_obj 1) = width_m (ex_obj 0)" "height_m (ex_obj 1) = height_m (ex_obj 0)"
    "depth_m (ex_obj 1) = depth_m (ex_obj 0)"
    by (simp_all add: ex_obj_def)
  have i: "inside (ex_obj 0) 1 2 1 \<and> fits_int 4 1"
    by (simp add: inside_def fits_int_def ex_obj_def)
  have b: "sint (byte_offset 4 1) = 4"
    by (simp add: byte_offset_def)
  have g0: "leaf_get CudaSurface3D 4 (ex_obj 0) 1 2 1 (dev ex_world3) = Inr (22 :: int)"
    by (simp add: CudaSurface3D_get_def surf3Dread_def surf_read_def surf_locate_def
        in_extent_def lin_index_def b ex_world3_def ex_obj_def ex_surf_def ex_mem_def)
  have g1: "leaf_get CudaSurface3D 4 (ex_obj 1) 1 2 1 (dev ex_world3) = Inr (0 :: int)"
    by (simp add: CudaSurface3D_get_def surf3Dread_def surf_read_def surf_locate_def
        in_extent_def lin_index_def b ex_world3_def ex_obj_def ex_surf_def)
  from host_round_trip [OF ex_world3_wf(1) ex_world3_wf(2) ex_world3_wf(3) ex_world3_wf(4) x e]
  obtain buf W' where r: "copyTo 4 1 (replicate 24 0) ex_world3 = Inr buf"
    "operator_assign_host 4 3 buf ex_world3 = Inr W'"
    "\<forall>x y z. inside (ex_obj 0) x y z \<and> fits_int 4 x \<longrightarrow>
       leaf_get CudaSurface3D 4 (ex_obj 1) x y z (dev W')
         = leaf_get CudaSurface3D 4 (ex_obj 0) x y z (dev ex_world3)"
    by blast
  from r(3) i g0 have "leaf_get CudaSurface3D 4 (ex_obj 1) 1 2 1 (dev W') = Inr 22"
    by simp
  with r(1,2) ex_world3_wf e g0 g1 show ?thesis by blast
qed


text \<open>
  C6. The accessors of \<^verbatim>\<open>CudaSurface2DArray\<close> are the layered surface functions and those
  of \<^verbatim>\<open>CudaSurface3D\<close> the volumetric ones, each applied to the handle, to
  \<^verbatim>\<open>sizeof(T) * x\<close>, to y and z as they are, and to the boundary mode of the instance;
  the x argument is \<open>sizeof(T)\<close> times x when that fits an \<^verbatim>\<open>int\<close>. Inside the extents
  both leaves address the element of the documented coordinate order, \<open>(x, y, z)\<close> or
  \<open>(x, y, layer)\<close>. Outside the extents the accessors check nothing themselves: the
  result is that of the surface function under the mode of the instance, a trap with
  \<^verbatim>\<open>cudaBoundaryModeTrap\<close>, zero or a dropped write with \<^verbatim>\<open>cudaBoundaryModeZero\<close>.
\<close>

theorem leaves_pass_through:
  "CudaSurface2DArray_get sz a x y z dv =
     surf2DLayeredread (surface a) (byte_offset sz x) y z (boundary_mode_m a) dv \<and>
   CudaSurface2DArray_set sz a x y z v dv =
     surf2DLayeredwrite v (surface a) (byte_offset sz x) y z (boundary_mode_m a) dv \<and>
   CudaSurface3D_get sz a x y z dv =
     surf3Dread (surface a) (byte_offset sz x) y z (boundary_mode_m a) dv \<and>
   CudaSurface3D_set sz a x y z v dv =
     surf3Dwrite v (surface a) (byte_offset sz x) y z (boundary_mode_m a) dv \<and>
   (fits_int sz x \<longrightarrow> sint (byte_offset sz x) = int (unat sz) * sint x) \<and>
   (wf_obj lf sz dv a \<and> inside a x y z \<and> fits_int sz x \<longrightarrow>
      (\<exists>S. arrays dv (surface a) = Some S \<and>
         leaf_get lf sz a x y z dv = Inr (s_mem S (elem_index a x y z)) \<and>
         leaf_set lf sz a x y z v dv =
           Inr (dv\<lparr>arrays := (arrays dv)(surface a \<mapsto>
                  S\<lparr>s_mem := (s_mem S)(elem_index a x y z := v)\<rparr>)\<rparr>))) \<and>
   (wf_obj lf sz dv a \<and> \<not> inside a x y z \<and> fits_int sz x \<longrightarrow>
      (boundary_mode_m a = cudaBoundaryModeTrap \<longrightarrow>
         leaf_get lf sz a x y z dv = Inl BoundaryTrap \<and>
         leaf_set lf sz a x y z v dv = Inl BoundaryTrap) \<and>
      (boundary_mode_m a = cudaBoundaryModeZero \<longrightarrow>
         leaf_get lf sz a x y z dv = Inr 0 \<and> leaf_set lf sz a x y z v dv = Inr dv))"
proof (intro conjI impI)
  show "CudaSurface2DArray_get sz a x y z dv =
     surf2DLayeredread (surface a) (byte_offset sz x) y z (boundary_mode_m a) dv"
    by (simp add: CudaSurface2DArray_get_def)
  show "CudaSurface2DArray_set sz a x y z v dv =
     surf2DLayeredwrite v (surface a) (byte_offset sz x) y z (boundary_mode_m a) dv"
    by (simp add: CudaSurface2DArray_set_def)
  show "CudaSurface3D_get sz a x y z dv =
     surf3Dread (surface a) (byte_offset sz x) y z (boundary_mode_m a) dv"
    by (simp add: CudaSurface3D_get_def)
  show "CudaSurface3D_set sz a x y z v dv =
     surf3Dwrite v (surface a) (byte_offset sz x) y z (boundary_mode_m a) dv"
    by (simp add: CudaSurface3D_set_def)
  show "sint (byte_offset sz x) = int (unat sz) * sint x" if "fits_int sz x"
    using that by (simp add: fits_int_def sint_byte_offset)
next
  assume h: "wf_obj lf sz dv a \<and> inside a x y z \<and> fits_int sz x"
  then obtain S where S: "arrays dv (surface a) = Some S"
    "s_width S = unat (width_m a)" "s_height S = unat (height_m a)"
    "s_depth S = unat (depth_m a)" "s_esize S = unat sz" "s_layered S = IS_LAYERED lf"
    "0 < s_refs S" "0 < unat sz" "unat sz * s_count S < 2 ^ 64"
    by (auto elim: wf_objD)
  have loc: "surf_locate S (boundary_mode_m a) (sint (byte_offset sz x)) (sint y) (sint z)
      = Inr (Some (elem_index a x y z))"
    using S(2-5,8) h by (intro locate_inside) simp_all
  show "\<exists>S. arrays dv (surface a) = Some S \<and>
         leaf_get lf sz a x y z dv = Inr (s_mem S (elem_index a x y z)) \<and>
         leaf_set lf sz a x y z v dv =
           Inr (dv\<lparr>arrays := (arrays dv)(surface a \<mapsto>
                  S\<lparr>s_mem := (s_mem S)(elem_index a x y z := v)\<rparr>)\<rparr>)"
    using S(1,6) loc by (simp add: leaf_get_eq leaf_set_eq surf_read_def surf_write_def)
next
  assume h: "wf_obj lf sz dv a \<and> \<not> inside a x y z \<and> fits_int sz x"
  then obtain S where S: "arrays dv (surface a) = Some S"
    "s_width S = unat (width_m a)" "s_height S = unat (height_m a)"
    "s_depth S = unat (depth_m a)" "s_esize S = unat sz" "s_layered S = IS_LAYERED lf"
    "0 < s_refs S" "0 < unat sz" "unat sz * s_count S < 2 ^ 64"
    by (auto elim: wf_objD)
  from h have o: "\<not> inside a x y z"
    and f: "fits_int sz x \<or> \<not> (0 \<le> sint y \<and> sint y < int (unat (height_m a)))
           \<or> \<not> (0 \<le> sint z \<and> sint z < int (unat (depth_m a)))"
    by simp_all
  note loc = locate_outside [OF S(2-5,8) o f]
  {
    assume "boundary_mode_m a = cudaBoundaryModeTrap"
    then show "leaf_get lf sz a x y z dv = Inl BoundaryTrap"
      and "leaf_set lf sz a x y z v dv = Inl BoundaryTrap"
      using S(1,6) loc(2) by (simp_all add: leaf_get_eq leaf_set_eq surf_read_def surf_write_def)
  }
  {
    assume "boundary_mode_m a = cudaBoundaryModeZero"
    then show "leaf_get lf sz a x y z dv = Inr 0"
      and "leaf_set lf sz a x y z v dv = Inr dv"
      using S(1,6) loc(1) by (simp_all add: leaf_get_eq leaf_set_eq surf_read_def surf_write_def)
  }
qed



text \<open>
  Witness for C6: element \<open>(1, 2, 1)\<close> of the 4 x 3 x 2 volume is element 21 in linear
  order; the single element of a layered 1 x 1 x 1 array; and an access at \<open>x = 5\<close>
  outside it.
\<close>

theorem leaves_pass_through_witness:
  "fits_int 4 1 \<and> sint (byte_offset 4 1) = 4 \<and>
   wf_obj CudaSurface3D 4 (dev ex_world3) (ex_obj 0) \<and> inside (ex_obj 0) 1 2 1 \<and>
   elem_index (ex_obj 0) 1 2 1 = 21 \<and>
   leaf_get CudaSurface3D 4 (ex_obj 0) 1 2 1 (dev ex_world3) = Inr 22 \<and>
   wf_obj CudaSurface2DArray 4 (ex_unit_dev True) ex_unit_obj \<and> inside ex_unit_obj 0 0 0 \<and>
   fits_int 4 0 \<and>
   leaf_get CudaSurface2DArray 4 ex_unit_obj 0 0 0 (ex_unit_dev True) = Inr 7 \<and>
   \<not> inside ex_unit_obj 5 0 0 \<and> fits_int 4 5 \<and>
   leaf_get CudaSurface2DArray 4 ex_unit_obj 5 0 0 (ex_unit_dev True) = Inr 0 \<and>
   leaf_set CudaSurface2DArray 4 ex_unit_obj 5 0 0 3 (ex_unit_dev True) = Inr (ex_unit_dev True)"
proof -
  have f: "fits_int 4 1" "fits_int 4 0" "fits_int 4 5"
    by (simp_all add: fits_int_def)
  have i: "inside (ex_obj 0) 1 2 1" "inside ex_unit_obj 0 0 0" "\<not> inside ex_unit_obj 5 0 0"
    by (simp_all add: inside_def ex_obj_def ex_unit_obj_def)
  have e: "elem_index (ex_obj 0) 1 2 1 = 21"
    by (simp add: elem_index_def ex_obj_def)
  have m: "arrays (dev ex_world3) (surface (ex_obj 0)) = Some (ex_surf ex_mem 1)"
    by (simp add: ex_world3_def ex_obj_def)
  have u: "arrays (ex_unit_dev True) (surface ex_unit_obj) =
      Some \<lparr>s_width = 1, s_height = 1, s_depth = 1, s_layered = True, s_esize = 4,
            s_mem = (\<lambda>i. 0)(0 := 7), s_refs = 1\<rparr>"
    by (simp add: ex_unit_dev_def ex_unit_obj_def)
  note T1 = leaves_pass_through [where sz = 4 and a = "ex_obj 0" and x = 1 and y = 2 and z = 1
      and dv = "dev ex_world3" and lf = CudaSurface3D and v = 0]
  note T2 = leaves_pass_through [where sz = 4 and a = ex_unit_obj and x = 0 and y = 0 and z = 0
      and dv = "ex_unit_dev True" and lf = CudaSurface2DArray and v = 0]
  note T3 = leaves_pass_through [where sz = 4 and a = ex_unit_obj and x = 5 and y = 0 and z = 0
      and dv = "ex_unit_dev True" and lf = CudaSurface2DArray and v = 3]
  from T1 f(1) have b: "sint (byte_offset 4 1) = 4"
    by simp
  from T1 f(1) i(1) ex_world3_wf(3) m e
  have 1: "leaf_get CudaSurface3D 4 (ex_obj 0) 1 2 1 (dev ex_world3) = Inr 22"
    by (auto simp: ex_surf_def ex_mem_def)
  have e0: "elem_index ex_unit_obj 0 0 0 = 0"
    by (simp add: elem_index_def)
  from T2 f(2) i(2) ex_unit_wf(2) u e0
  have 2: "leaf_get CudaSurface2DArray 4 ex_unit_obj 0 0 0 (ex_unit_dev True) = Inr 7"
    by auto
  from T3 f(3) i(3) ex_unit_wf(2,3)
  have 3: "leaf_get CudaSurface2DArray 4 ex_unit_obj 5 0 0 (ex_unit_dev True) = Inr 0"
    "leaf_set CudaSurface2DArray 4 ex_unit_obj 5 0 0 3 (ex_unit_dev True) = Inr (ex_unit_dev True)"
    by blast+
  from f i e b 1 2 3 ex_world3_wf(3) ex_unit_wf(2) show ?thesis by simp
qed

text \<open>
  C5 says that a \<open>get\<close> outside the declared extents, with zero as boundary mode, returns
  zero at every such coordinate. On arrays of extents 1 x 1 x 1 with 4-byte elements,
  whose single element is 7, the coordinate \<open>(2^30, 0, 0)\<close> is outside the extents, its
  byte offset \<open>4 * 2^30\<close> is 0 as an \<^verbatim>\<open>int\<close>, and both leaves return 7.
\<close>

theorem out_of_extent_read_counterexample:
  "wf_obj CudaSurface3D 4 (ex_unit_dev False) ex_unit_obj \<and>
   wf_obj CudaSurface2DArray 4 (ex_unit_dev True) ex_unit_obj \<and>
   boundary_mode_m ex_unit_obj = cudaBoundaryModeZero \<and>
   \<not> inside ex_unit_obj 1073741824 0 0 \<and>
   CudaSurface3D_get 4 ex_unit_obj 1073741824 0 0 (ex_unit_dev False) = Inr 7 \<and>
   CudaSurface2DArray_get 4 ex_unit_obj 1073741824 0 0 (ex_unit_dev True) = Inr 7 \<and>
   CudaSurface3D_get 4 ex_unit_obj 1073741824 0 0 (ex_unit_dev False) \<noteq> Inr 0 \<and>
   CudaSurface2DArray_get 4 ex_unit_obj 1073741824 0 0 (ex_unit_dev True) \<noteq> Inr 0"
proof -
  have b: "byte_offset 4 1073741824 = 0"
    by (simp add: byte_offset_def)
  have o: "\<not> inside ex_unit_obj 1073741824 0 0"
    by (simp add: inside_def ex_unit_obj_def)
  have 1: "CudaSurface3D_get 4 ex_unit_obj 1073741824 0 0 (ex_unit_dev False) = Inr 7"
    by (simp add: CudaSurface3D_get_def surf3Dread_def surf_read_def surf_locate_def
        in_extent_def lin_index_def b ex_unit_dev_def ex_unit_obj_def)
  have 2: "CudaSurface2DArray_get 4 ex_unit_obj 1073741824 0 0 (ex_unit_dev True) = Inr 7"
    by (simp add: CudaSurface2DArray_get_def surf2DLayeredread_def surf_read_def surf_locate_def
        in_extent_def lin_index_def b ex_unit_dev_def ex_unit_obj_def)
  from ex_unit_wf o 1 2 show ?thesis by simp
qed


text \<open>
  C5, amended. For both leaves, on a well-formed instance with zero as boundary mode, a
  \<open>get\<close> at a coordinate outside the declared extents returns zero, provided that the
  byte offset \<^verbatim>\<open>sizeof(T) * x\<close> fits an \<^verbatim>\<open>int\<close> or that y or z is outside its range.
\<close>

theorem out_of_extent_read_is_zero:
  assumes "wf_obj lf sz dv a" and "boundary_mode_m a = cudaBoundaryModeZero"
    and "\<not> inside a x y z"
    and "fits_int sz x \<or> \<not> (0 \<le> sint y \<and> sint y < int (unat (height_m a)))
           \<or> \<not> (0 \<le> sint z \<and> sint z < int (unat (depth_m a)))"
  shows "leaf_get lf sz a x y z dv = Inr 0"
proof -
  from assms(1) obtain S where S: "arrays dv (surface a) = Some S"
    "s_width S = unat (width_m a)" "s_height S = unat (height_m a)"
    "s_depth S = unat (depth_m a)" "s_esize S = unat sz" "s_layered S = IS_LAYERED lf"
    "0 < s_refs S" "0 < unat sz" "unat sz * s_count S < 2 ^ 64"
    by (rule wf_objD)
  have "surf_locate S cudaBoundaryModeZero (sint (byte_offset sz x)) (sint y) (sint z) = Inr None"
    using S(2-5,8) assms(3,4) by (rule locate_outside(1))
  then show ?thesis
    using S(1,6) assms(2) by (simp add: leaf_get_eq surf_read_def)
qed


text \<open>
  Witness for the amended C5: \<open>x = 5\<close> on the 1 x 1 x 1 arrays of both leaves, and
  \<open>y = -1\<close> with an x whose byte offset does not fit.
\<close>

theorem out_of_extent_read_is_zero_witness:
  "wf_obj CudaSurface3D 4 (ex_unit_dev False) ex_unit_obj \<and>
   wf_obj CudaSurface2DArray 4 (ex_unit_dev True) ex_unit_obj \<and>
   boundary_mode_m ex_unit_obj = cudaBoundaryModeZero \<and>
   \<not> inside ex_unit_obj 5 0 0 \<and> fits_int 4 5 \<and> \<not> inside ex_unit_obj 1073741824 (- 1) 0 \<and>
   CudaSurface3D_get 4 ex_unit_obj 5 0 0 (ex_unit_dev False) = Inr 0 \<and>
   CudaSurface2DArray_get 4 ex_unit_obj 5 0 0 (ex_unit_dev True) = Inr 0 \<and>
   CudaSurface3D_get 4 ex_unit_obj 1073741824 (- 1) 0 (ex_unit_dev False) = Inr 0"
proof -
  have o: "\<not> inside ex_unit_obj 5 0 0" "fits_int 4 5" "\<not> inside ex_unit_obj 1073741824 (- 1) 0"
    by (simp_all add: inside_def fits_int_def ex_unit_obj_def)
  have y: "\<not> (0 \<le> sint (- 1 :: cint) \<and> sint (- 1 :: cint) < int (unat (height_m ex_unit_obj)))"
    by simp
  have 1: "leaf_get CudaSurface3D 4 ex_unit_obj 5 0 0 (ex_unit_dev False) = Inr 0"
    using out_of_extent_read_is_zero [OF ex_unit_wf(1) ex_unit_wf(3) o(1)] o(2) by blast
  have 2: "leaf_get CudaSurface2DArray 4 ex_unit_obj 5 0 0 (ex_unit_dev True) = Inr 0"
    using out_of_extent_read_is_zero [OF ex_unit_wf(2) ex_unit_wf(3) o(1)] o(2) by blast
  have 3: "leaf_get CudaSurface3D 4 ex_unit_obj 1073741824 (- 1) 0 (ex_unit_dev False) = Inr 0"
    using out_of_extent_read_is_zero [OF ex_unit_wf(1) ex_unit_wf(3) o(3)] y by blast
  from ex_unit_wf o 1 2 3 show ?thesis by simp
qed


end
